theory Spec2Isabelle
  imports Complex_Main
begin

section \<open>Values exchanged with the agent\<close>

text \<open>
  The edge functions receive JSON text and hand JSON objects to the store client.
  A value of the handlers is a \<open>json\<close>; JavaScript's \<open>undefined\<close> (an absent key, an
  omitted optional) is \<open>None\<close> in \<open>json option\<close>. Numbers are exact rationals: the
  rounding of IEEE doubles is not part of the model. An object is the list of its
  members; a parsed object has each key once, and a lookup takes the first binding.
\<close>

datatype json =
    JNull
  | JBool bool
  | JNum rat
  | JStr string
  | JArr "json list"
  | JObj "(string \<times> json) list"

text \<open>Property access \<open>v.k\<close>; on anything but an object holding \<open>k\<close> the result is undefined.\<close>

fun jget :: "json option \<Rightarrow> string \<Rightarrow> json option" where
  "jget (Some (JObj kvs)) k = map_of kvs k"
| "jget _ k = None"

text \<open>The elements of an array value (what \<open>.map\<close> and \<open>.length\<close> range over).\<close>

fun jelems :: "json option \<Rightarrow> json list" where
  "jelems (Some (JArr xs)) = xs"
| "jelems _ = []"

text \<open>The keys of an object, in order.\<close>

fun jkeys :: "json \<Rightarrow> string list" where
  "jkeys (JObj kvs) = map fst kvs"
| "jkeys v = []"

text \<open>JavaScript truthiness, as used by \<open>if (data.updates)\<close> and \<open>x || y\<close>.\<close>

fun truthy :: "json option \<Rightarrow> bool" where
  "truthy None = False"
| "truthy (Some JNull) = False"
| "truthy (Some (JBool b)) = b"
| "truthy (Some (JNum x)) = (x \<noteq> 0)"
| "truthy (Some (JStr s)) = (s \<noteq> [])"
| "truthy (Some (JArr xs)) = True"
| "truthy (Some (JObj kvs)) = True"

definition jor :: "json option \<Rightarrow> json \<Rightarrow> json option" where
  "jor v d = (if truthy v then v else Some d)"

text \<open>
  An object literal \<open>{k1: v1, ...}\<close> as it reaches the store: serialisation drops the
  keys whose value is undefined.
\<close>

fun obj :: "(string \<times> json option) list \<Rightarrow> (string \<times> json) list" where
  "obj [] = []"
| "obj ((k, None) # kvs) = obj kvs"
| "obj ((k, Some v) # kvs) = (k, v) # obj kvs"

section \<open>Schema validation (\<open>_shared/schema.ts\<close>)\<close>

text \<open>
  The schemas are built from the combinators of the validation library. The library is
  not part of the repository; its combinators are embedded as the datatype \<open>schema\<close> and
  its parser as \<open>zparse\<close>, which never stops at the first violation: it returns every
  issue found, each with the path of the offending value, together with the parsed
  value (defaults filled in, unknown keys stripped).
\<close>

datatype pseg = Key string | Idx nat

text \<open>
  An issue has the path of the offending value, the library's code and the message of
  the library's default error map, which is what \<open>format()\<close> reports.
\<close>

datatype issue = Issue (ipath: "pseg list") (icode: string) (imessage: string)

datatype numcheck =
    CInt
  | CMin int bool
  | CMax int bool

datatype strcheck =
    SMin nat
  | SUuid
  | SDatetime

datatype schema =
    ZString "strcheck list"
  | ZNumber "numcheck list"
  | ZUnknown
  | ZRecord schema
  | ZArray schema "nat option"
  | ZObject "(string \<times> schema) list"
  | ZOptional schema
  | ZDefault schema json

text \<open>
  Functions of the runtime and of imported libraries that the handlers call: hashing,
  HMAC, token signing, date parsing and printing, decompression, JSON parsing and two
  regular expressions. They are parameters of the model: no theorem depends on what
  they compute, only on where the handlers call them. Where the original throws, the
  parameter returns \<open>Inl\<close> of the error message.
\<close>

record claims =
  claim_sub :: string
  claim_org_id :: string
  claim_iss :: string
  claim_aud :: string
  claim_exp :: "int option"
  claim_iat :: int

record lib =
  sha256_hex :: "string \<Rightarrow> string"
  hmac_sha256_hex :: "string \<Rightarrow> string \<Rightarrow> string"
  jwt_open :: "string \<Rightarrow> string \<Rightarrow> string + claims"
  jwt_create :: "string \<Rightarrow> claims \<Rightarrow> string"
  date_parse :: "string \<Rightarrow> int option"
  to_iso :: "int \<Rightarrow> string"
  gunzip :: "string \<Rightarrow> string + string"
  json_parse :: "string \<Rightarrow> string + json"
  strip_bearer :: "string \<Rightarrow> string"
  is_uuid :: "string \<Rightarrow> bool"
  is_datetime :: "string \<Rightarrow> bool"

text \<open>Numbers as template literals print them (\<open>`${n}`\<close>), for the integers that occur.\<close>

definition digit :: "nat \<Rightarrow> char" where
  "digit n = ''0123456789'' ! n"

fun show_nat :: "nat \<Rightarrow> string" where
  "show_nat n = (if n < 10 then [digit n] else show_nat (n div 10) @ [digit (n mod 10)])"

declare show_nat.simps [simp del]

definition show_int :: "int \<Rightarrow> string" where
  "show_int i = (if i < 0 then CHR ''-'' # show_nat (nat (- i)) else show_nat (nat i))"

text \<open>
  The messages of the library's default error map. \<open>parsed_type\<close> is the name the library
  gives to the type of the value received.
\<close>

fun parsed_type :: "json option \<Rightarrow> string" where
  "parsed_type None = ''undefined''"
| "parsed_type (Some JNull) = ''null''"
| "parsed_type (Some (JBool b)) = ''boolean''"
| "parsed_type (Some (JNum x)) = ''number''"
| "parsed_type (Some (JStr s)) = ''string''"
| "parsed_type (Some (JArr xs)) = ''array''"
| "parsed_type (Some (JObj kvs)) = ''object''"

definition invalid_type :: "pseg list \<Rightarrow> string \<Rightarrow> json option \<Rightarrow> issue" where
  "invalid_type p expected v =
     Issue p ''invalid_type''
       (if v = None then ''Required''
        else ''Expected '' @ expected @ '', received '' @ parsed_type v)"

definition array_too_big :: "pseg list \<Rightarrow> nat \<Rightarrow> issue" where
  "array_too_big p m =
     Issue p ''too_big'' (''Array must contain at most '' @ show_nat m @ '' element(s)'')"

fun strcheck_issues :: "lib \<Rightarrow> pseg list \<Rightarrow> string \<Rightarrow> strcheck \<Rightarrow> issue list" where
  "strcheck_issues L p s (SMin n) =
     (if length s < n
      then [Issue p ''too_small''
              (''String must contain at least '' @ show_nat n @ '' character(s)'')]
      else [])"
| "strcheck_issues L p s SUuid =
     (if is_uuid L s then [] else [Issue p ''invalid_string'' ''Invalid uuid''])"
| "strcheck_issues L p s SDatetime =
     (if is_datetime L s then [] else [Issue p ''invalid_string'' ''Invalid datetime''])"

definition is_integer :: "rat \<Rightarrow> bool" where
  "is_integer x = (of_int (floor x) = x)"

fun numcheck_issues :: "pseg list \<Rightarrow> rat \<Rightarrow> numcheck \<Rightarrow> issue list" where
  "numcheck_issues p x CInt =
     (if is_integer x then []
      else [Issue p ''invalid_type'' ''Expected integer, received float''])"
| "numcheck_issues p x (CMin m inclusive) =
     (if (if inclusive then x < of_int m else x \<le> of_int m)
      then [Issue p ''too_small''
              (''Number must be ''
               @ (if inclusive then ''greater than or equal to '' else ''greater than '')
               @ show_int m)]
      else [])"
| "numcheck_issues p x (CMax m inclusive) =
     (if (if inclusive then x > of_int m else x \<ge> of_int m)
      then [Issue p ''too_big''
              (''Number must be ''
               @ (if inclusive then ''less than or equal to'' else ''less than'')
               @ '' '' @ show_int m)]
      else [])"

text \<open>The parsed value of an array or object: the parsed members that are defined.\<close>

fun defined_elems :: "json option list \<Rightarrow> json list" where
  "defined_elems [] = []"
| "defined_elems (None # vs) = defined_elems vs"
| "defined_elems (Some v # vs) = v # defined_elems vs"

fun zparse :: "lib \<Rightarrow> schema \<Rightarrow> pseg list \<Rightarrow> json option \<Rightarrow> issue list \<times> json option" where
  "zparse L (ZString cs) p v =
     (case v of
        Some (JStr s) \<Rightarrow> (concat (map (strcheck_issues L p s) cs), Some (JStr s))
      | _ \<Rightarrow> ([invalid_type p ''string'' v], None))"
| "zparse L (ZNumber cs) p v =
     (case v of
        Some (JNum x) \<Rightarrow> (concat (map (numcheck_issues p x) cs), Some (JNum x))
      | _ \<Rightarrow> ([invalid_type p ''number'' v], None))"
| "zparse L ZUnknown p v = ([], v)"
| "zparse L (ZRecord vs) p v =
     (case v of
        Some (JObj kvs) \<Rightarrow>
          (let rs = map (\<lambda>(k, x). (k, zparse L vs (p @ [Key k]) (Some x))) kvs
           in (concat (map (\<lambda>(k, r). fst r) rs),
               Some (JObj (obj (map (\<lambda>(k, r). (k, snd r)) rs)))))
      | _ \<Rightarrow> ([invalid_type p ''object'' v], None))"
| "zparse L (ZArray es mx) p v =
     (case v of
        Some (JArr xs) \<Rightarrow>
          (let rs = map (\<lambda>(i, x). zparse L es (p @ [Idx i]) (Some x)) (zip [0..<length xs] xs)
           in ((case mx of
                  Some m \<Rightarrow> (if length xs > m then [array_too_big p m] else [])
                | None \<Rightarrow> [])
               @ concat (map fst rs),
               Some (JArr (defined_elems (map snd rs)))))
      | _ \<Rightarrow> ([invalid_type p ''array'' v], None))"
| "zparse L (ZObject shape) p v =
     (case v of
        Some (JObj kvs) \<Rightarrow>
          (let rs = map (\<lambda>(k, sch). (k, zparse L sch (p @ [Key k]) (map_of kvs k))) shape
           in (concat (map (\<lambda>(k, r). fst r) rs),
               Some (JObj (obj (map (\<lambda>(k, r). (k, snd r)) rs)))))
      | _ \<Rightarrow> ([invalid_type p ''object'' v], None))"
| "zparse L (ZOptional s) p v =
     (case v of None \<Rightarrow> ([], None) | Some x \<Rightarrow> zparse L s p (Some x))"
| "zparse L (ZDefault s d) p v =
     (case v of None \<Rightarrow> zparse L s p (Some d) | Some x \<Rightarrow> zparse L s p (Some x))"

subsection \<open>The schemas\<close>

definition ServerIdentitySchema :: schema where
  "ServerIdentitySchema = ZObject
     [(''agent_id'', ZOptional (ZString [SUuid])),
      (''hostname'', ZString [SMin 1]),
      (''machine_id'', ZString [SMin 1]),
      (''os'', ZObject [(''name'', ZString []), (''version'', ZString [])]),
      (''kernel'', ZString []),
      (''cpu'', ZObject [(''model'', ZString []), (''cores'', ZNumber [CInt, CMin 0 False])]),
      (''mem_bytes'', ZNumber [CInt, CMin 0 False]),
      (''agent_version'', ZString []),
      (''tags'', ZDefault (ZOptional (ZRecord ZUnknown)) (JObj []))]"

definition HeartbeatSchema :: schema where
  "HeartbeatSchema = ZObject
     [(''ts'', ZString [SDatetime]),
      (''uptime_s'', ZNumber [CInt, CMin 0 True]),
      (''load'', ZObject
         [(''m1'', ZNumber [CMin 0 True]),
          (''m5'', ZNumber [CMin 0 True]),
          (''m15'', ZNumber [CMin 0 True])]),
      (''cpu_pct'', ZNumber [CMin 0 True, CMax 100 True]),
      (''mem'', ZObject
         [(''used'', ZNumber [CInt, CMin 0 True]),
          (''free'', ZNumber [CInt, CMin 0 True]),
          (''swap_used'', ZNumber [CInt, CMin 0 True])])]"

definition DiskSchema :: schema where
  "DiskSchema = ZObject
     [(''mount'', ZString []),
      (''fs'', ZString []),
      (''size_bytes'', ZNumber [CInt, CMin 0 True]),
      (''used_bytes'', ZNumber [CInt, CMin 0 True]),
      (''inodes_used'', ZOptional (ZNumber [CInt, CMin 0 True]))]"

definition NetworkInterfaceSchema :: schema where
  "NetworkInterfaceSchema = ZObject
     [(''name'', ZString []),
      (''mac'', ZOptional (ZString [])),
      (''ipv4'', ZDefault (ZOptional (ZArray (ZString []) None)) (JArr [])),
      (''ipv6'', ZDefault (ZOptional (ZArray (ZString []) None)) (JArr [])),
      (''rx_bytes'', ZNumber [CInt, CMin 0 True]),
      (''tx_bytes'', ZNumber [CInt, CMin 0 True])]"

definition ProcessSchema :: schema where
  "ProcessSchema = ZObject
     [(''pid'', ZNumber [CInt, CMin 0 False]),
      (''cmd'', ZString []),
      (''cpu_pct'', ZNumber [CMin 0 True]),
      (''mem_bytes'', ZNumber [CInt, CMin 0 True]),
      (''usr'', ZString [])]"

definition PackageSchema :: schema where
  "PackageSchema = ZObject
     [(''name'', ZString []),
      (''version'', ZString []),
      (''status'', ZOptional (ZString []))]"

definition UpdatesSchema :: schema where
  "UpdatesSchema = ZObject
     [(''security_updates_count'', ZNumber [CInt, CMin 0 True]),
      (''regular_updates_count'', ZNumber [CInt, CMin 0 True]),
      (''details'', ZDefault (ZOptional (ZArray (ZRecord ZUnknown) None)) (JArr []))]"

definition LogSchema :: schema where
  "LogSchema = ZObject
     [(''ts'', ZString [SDatetime]),
      (''source'', ZString []),
      (''level'', ZString []),
      (''message'', ZString []),
      (''raw'', ZDefault (ZOptional (ZRecord ZUnknown)) (JObj []))]"

text \<open>The full ingest payload: the process list is capped at 50, the log list at 200.\<close>

definition IngestPayloadSchema :: schema where
  "IngestPayloadSchema = ZObject
     [(''server'', ServerIdentitySchema),
      (''heartbeat'', HeartbeatSchema),
      (''disks'', ZDefault (ZOptional (ZArray DiskSchema None)) (JArr [])),
      (''network_ifaces'', ZDefault (ZOptional (ZArray NetworkInterfaceSchema None)) (JArr [])),
      (''processes'', ZDefault (ZOptional (ZArray ProcessSchema (Some 50))) (JArr [])),
      (''packages'', ZDefault (ZOptional (ZArray PackageSchema None)) (JArr [])),
      (''updates'', ZOptional UpdatesSchema),
      (''logs'', ZDefault (ZOptional (ZArray LogSchema (Some 200))) (JArr []))]"

text \<open>\<open>.omit({k: true})\<close> removes a key from an object schema.\<close>

fun omit :: "string list \<Rightarrow> schema \<Rightarrow> schema" where
  "omit ks (ZObject shape) = ZObject (filter (\<lambda>(k, sch). k \<notin> set ks) shape)"
| "omit ks sch = sch"

definition EnrollRequestSchema :: schema where
  "EnrollRequestSchema = ZObject
     [(''org_enroll_secret'', ZString [SMin 32]),
      (''host_facts'', omit [''agent_id''] ServerIdentitySchema)]"

definition RotateRequestSchema :: schema where
  "RotateRequestSchema = ZObject
     [(''agent_id'', ZString [SUuid]),
      (''refresh_token'', ZString [])]"

text \<open>
  \<open>safeParse\<close>: success with the parsed data exactly when no issue was raised, otherwise
  the list of all issues.
\<close>

definition safeParse :: "lib \<Rightarrow> schema \<Rightarrow> json \<Rightarrow> issue list + json option" where
  "safeParse L sch payload =
     (case zparse L sch [] (Some payload) of
        ([], data) \<Rightarrow> Inr data
      | (i # is, data) \<Rightarrow> Inl (i # is))"

text \<open>
  The validation error sent back to the client is \<open>parsed.error.format()\<close>: a tree of
  objects that follows the paths of the issues. Every node has the member \<open>_errors\<close>,
  the array of the messages of the issues raised at exactly that path, and one member
  for each next path element below it (an array index is the key that prints it). The
  tree starts as \<open>{_errors: []}\<close>; for each issue in turn its path is walked from the
  root, \<open>curr[el] = curr[el] || {_errors: []}\<close> creating the nodes that are missing, and
  the message is pushed on \<open>_errors\<close> of the last node. A node is built here as its
  messages and its children and turned into an object at the end; the order in which
  the members of an object are printed is not part of the model, a member is found by
  its key. (The two constructions coincide as long as no path element is itself named
  \<open>_errors\<close>; lemma \<open>ingest_issue_paths\<close> shows that the ingest schema raises no issue at
  such a path.)
\<close>

datatype etree = ENode (node_errors: "string list") (children: "(string \<times> etree) list")

fun seg_key :: "pseg \<Rightarrow> string" where
  "seg_key (Key k) = k"
| "seg_key (Idx i) = show_nat i"

fun add_error :: "string list \<Rightarrow> string \<Rightarrow> etree \<Rightarrow> etree" where
  "add_error [] m (ENode es cs) = ENode (es @ [m]) cs"
| "add_error (k # ks) m (ENode es cs) =
     ENode es
       (case map_of cs k of
          None \<Rightarrow> cs @ [(k, add_error ks m (ENode [] []))]
        | Some t \<Rightarrow> map (\<lambda>(k', t'). if k' = k then (k', add_error ks m t') else (k', t')) cs)"

fun etree_json :: "etree \<Rightarrow> json" where
  "etree_json (ENode es cs) =
     JObj ((''_errors'', JArr (map JStr es)) # map (\<lambda>(k, t). (k, etree_json t)) cs)"

definition format_tree :: "issue list \<Rightarrow> etree" where
  "format_tree is =
     foldl (\<lambda>t i. add_error (map seg_key (ipath i)) (imessage i) t) (ENode [] []) is"

definition format_issues :: "issue list \<Rightarrow> json" where
  "format_issues is = etree_json (format_tree is)"

text \<open>
  Reading the tree as a client does: the messages found at a path of the formatted
  error, \<open>details.k1.k2. ... ._errors\<close>.
\<close>

fun errors_at :: "json option \<Rightarrow> string list \<Rightarrow> json list" where
  "errors_at v [] = jelems (jget v ''_errors'')"
| "errors_at v (k # ks) = errors_at (jget v k) ks"


text \<open>
  A schema whose issues can only lie at paths built from array indices and from the keys
  of its object shapes, none of them \<open>_errors\<close>: its records accept any value.
\<close>

fun plain_keys :: "schema \<Rightarrow> bool" where
  "plain_keys (ZString cs) = True"
| "plain_keys (ZNumber cs) = True"
| "plain_keys ZUnknown = True"
| "plain_keys (ZRecord vs) = (vs = ZUnknown)"
| "plain_keys (ZArray es mx) = plain_keys es"
| "plain_keys (ZObject shape) = (\<forall>(k, sch) \<in> set shape. k \<noteq> ''_errors'' \<and> plain_keys sch)"
| "plain_keys (ZOptional s) = plain_keys s"
| "plain_keys (ZDefault s d) = plain_keys s"

section \<open>The store\<close>

text \<open>
  One list of rows per table. Rows of the key tables are records; rows of the telemetry
  tables are the JSON objects the handlers insert. Timestamps are milliseconds since the
  epoch. The unique indexes of the schema (\<open>api_nonces (org_id, agent_id, nonce)\<close>,
  \<open>servers (org_id, machine_id)\<close>, \<open>servers.agent_id\<close>) are enforced by the inserts.
\<close>

type_synonym row = "(string \<times> json) list"

record org_row =
  org_id :: string
  org_name :: string
  org_enroll_secret_hash :: string

record server_row =
  srv_id :: string
  srv_org_id :: string
  srv_agent_id :: string
  srv_machine_id :: string
  srv_cols :: row
  srv_hmac_secret :: string
  srv_refresh_token :: string
  srv_first_seen :: "int option"
  srv_last_seen :: "int option"

record nonce_row =
  nonce_org_id :: string
  nonce_agent_id :: string
  nonce_value :: string
  nonce_ts :: int

record alert_row =
  alert_id :: nat
  alert_org_id :: string
  alert_server_id :: string
  alert_ts :: int
  alert_type :: string
  alert_severity :: string
  alert_message :: string
  alert_status :: string

record rollup_row =
  bucket :: int
  rollup_org_id :: string
  rollup_server_id :: string
  cpu_avg :: "rat option"
  cpu_p95 :: "rat option"
  cpu_max :: "rat option"
  load1_avg :: "rat option"
  load5_avg :: "rat option"
  load15_avg :: "rat option"
  mem_used_avg :: "rat option"
  mem_free_avg :: "rat option"
  swap_used_avg :: "rat option"
  sample_count :: nat

record store =
  orgs :: "org_row list"
  servers :: "server_row list"
  api_nonces :: "nonce_row list"
  heartbeats :: "row list"
  disks :: "row list"
  network_ifaces :: "row list"
  processes :: "row list"
  packages :: "row list"
  updates :: "row list"
  logs :: "row list"
  alerts :: "alert_row list"
  heartbeats_rollup_1m :: "rollup_row list"
  heartbeats_rollup_1h :: "rollup_row list"

datatype store_op =
    OrgsSelect | ServersSelect | ServersInsert | ServersUpdate
  | NoncesSelect | NoncesInsert | NoncesDelete
  | HeartbeatsInsert | DisksInsert | NetworkIfacesInsert | ProcessesInsert
  | PackagesInsert | UpdatesInsert | LogsInsert
  | AlertsSelect | AlertsInsert | AlertsUpdate
  | ExecSql

text \<open>
  What one invocation of a handler reads from outside the request and the store: the
  environment variables, the server clock, which store operations fail (with the error
  message) and the random values drawn. An invocation is modelled at one server instant
  \<open>now\<close>: its successive clock reads are not told apart.
\<close>

record world =
  denv :: "string \<Rightarrow> string option"
  now :: int
  faults :: "store_op \<Rightarrow> string option"
  random_uuid :: string
  random_secret :: "nat \<Rightarrow> string"
  db_default_id :: string

record request =
  req_method :: string
  req_headers :: "string \<Rightarrow> string option"
  req_body :: string

record response =
  status :: nat
  body :: json

text \<open>A call that may throw: \<open>Throws\<close> carries the error message.\<close>

datatype 'a outcome = Returns 'a | Throws string

subsection \<open>\<open>_shared/response.ts\<close>\<close>

definition jsonResponse :: "json \<Rightarrow> nat \<Rightarrow> response" where
  "jsonResponse data st = \<lparr>status = st, body = data\<rparr>"

definition errorResponse :: "string \<Rightarrow> nat \<Rightarrow> response" where
  "errorResponse message st = jsonResponse (JObj [(''error'', JStr message)]) st"

definition validationErrorResponse :: "json \<Rightarrow> response" where
  "validationErrorResponse errors =
     jsonResponse (JObj [(''error'', JStr ''Validation failed''), (''details'', errors)]) 422"

definition handleCORS :: response where
  "handleCORS = \<lparr>status = 204, body = JNull\<rparr>"

definition internalError :: "string \<Rightarrow> response" where
  "internalError message = errorResponse (''Internal server error: '' @ message) 500"

subsection \<open>\<open>_shared/db.ts\<close>\<close>

definition env_set :: "world \<Rightarrow> string \<Rightarrow> bool" where
  "env_set W k = (case denv W k of None \<Rightarrow> False | Some v \<Rightarrow> v \<noteq> [])"

definition createServiceClient :: "world \<Rightarrow> unit outcome" where
  "createServiceClient W =
     (if \<not> env_set W ''SUPABASE_URL'' \<or> \<not> env_set W ''SUPABASE_SERVICE_ROLE_KEY''
      then Throws ''Missing SUPABASE_URL or SUPABASE_SERVICE_ROLE_KEY''
      else Returns ())"

text \<open>
  \<open>.single()\<close>: the row when the query matches exactly one, otherwise no data (with the
  "no or multiple rows" error code \<open>PGRST116\<close>).
\<close>

fun single :: "'a list \<Rightarrow> 'a option" where
  "single [r] = Some r"
| "single rs = None"

definition nonce_matches :: "string \<Rightarrow> string \<Rightarrow> string \<Rightarrow> nonce_row \<Rightarrow> bool" where
  "nonce_matches orgId agentId nonce r =
     (nonce_org_id r = orgId \<and> nonce_agent_id r = agentId \<and> nonce_value r = nonce)"

definition isNonceUsed :: "world \<Rightarrow> store \<Rightarrow> string \<Rightarrow> string \<Rightarrow> string \<Rightarrow> bool outcome" where
  "isNonceUsed W s orgId agentId nonce =
     (case faults W NoncesSelect of
        Some m \<Rightarrow> Throws m
      | None \<Rightarrow> Returns (single (filter (nonce_matches orgId agentId nonce) (api_nonces s)) \<noteq> None))"

definition storeNonce :: "world \<Rightarrow> store \<Rightarrow> string \<Rightarrow> string \<Rightarrow> string \<Rightarrow> store outcome" where
  "storeNonce W s orgId agentId nonce =
     (case faults W NoncesInsert of
        Some m \<Rightarrow> Throws m
      | None \<Rightarrow>
          if \<exists>r \<in> set (api_nonces s). nonce_matches orgId agentId nonce r
          then Throws ''duplicate key value violates unique constraint''
          else Returns (s\<lparr>api_nonces := api_nonces s @
                 [\<lparr>nonce_org_id = orgId, nonce_agent_id = agentId, nonce_value = nonce,
                   nonce_ts = now W\<rparr>]\<rparr>))"

text \<open>
  The delete is issued without a count option, so the client reports no count and the
  function returns \<open>count || 0 = 0\<close>.
\<close>

definition cleanupOldNonces :: "world \<Rightarrow> store \<Rightarrow> int \<Rightarrow> (store \<times> nat) outcome" where
  "cleanupOldNonces W s minutesOld =
     (let cutoff = now W - minutesOld * 60 * 1000 in
      case faults W NoncesDelete of
        Some m \<Rightarrow> Throws m
      | None \<Rightarrow>
          Returns (s\<lparr>api_nonces := filter (\<lambda>r. \<not> nonce_ts r < cutoff) (api_nonces s)\<rparr>, 0))"

definition getOrgBySecretHash :: "world \<Rightarrow> store \<Rightarrow> string \<Rightarrow> org_row option outcome" where
  "getOrgBySecretHash W s secretHash =
     (case faults W OrgsSelect of
        Some m \<Rightarrow> Throws m
      | None \<Rightarrow> Returns (single (filter (\<lambda>r. org_enroll_secret_hash r = secretHash) (orgs s))))"

definition getServerByAgentId :: "world \<Rightarrow> store \<Rightarrow> string \<Rightarrow> server_row option outcome" where
  "getServerByAgentId W s agentId =
     (case faults W ServersSelect of
        Some m \<Rightarrow> Throws m
      | None \<Rightarrow> Returns (single (filter (\<lambda>r. srv_agent_id r = agentId) (servers s))))"

subsection \<open>\<open>_shared/auth.ts\<close>\<close>

definition JWT_ISSUER :: string where
  "JWT_ISSUER = ''godseye''"

definition JWT_AUDIENCE :: string where
  "JWT_AUDIENCE = ''agent''"

definition JWT_TTL_MINUTES :: int where
  "JWT_TTL_MINUTES = 60"

definition JWT_SECRET :: "world \<Rightarrow> string" where
  "JWT_SECRET W = (case denv W ''JWT_SECRET'' of None \<Rightarrow> [] | Some v \<Rightarrow> v)"

definition computeHMAC :: "lib \<Rightarrow> string \<Rightarrow> string \<Rightarrow> string" where
  "computeHMAC L secret message = hmac_sha256_hex L secret message"

definition verifyHMAC :: "lib \<Rightarrow> string \<Rightarrow> string \<Rightarrow> string \<Rightarrow> string \<Rightarrow> string \<Rightarrow> bool" where
  "verifyHMAC L hmacSecret timestamp nonce bodyHash providedSignature =
     (let canonicalMessage = timestamp @ [CHR 0x0A] @ nonce @ [CHR 0x0A] @ bodyHash;
          expectedSignature = computeHMAC L hmacSecret canonicalMessage
      in expectedSignature = providedSignature)"

definition hashBody :: "lib \<Rightarrow> string \<Rightarrow> string" where
  "hashBody L b = sha256_hex L b"

definition hashSecret :: "lib \<Rightarrow> string \<Rightarrow> string" where
  "hashSecret L secret = sha256_hex L secret"

definition generateSecret :: "world \<Rightarrow> nat \<Rightarrow> string" where
  "generateSecret W len = random_secret W len"

definition createAgentJWT :: "lib \<Rightarrow> world \<Rightarrow> string \<Rightarrow> string \<Rightarrow> string outcome" where
  "createAgentJWT L W agentId orgId =
     (if JWT_SECRET W = [] then Throws ''JWT_SECRET environment variable not set''
      else Returns (jwt_create L (JWT_SECRET W)
             \<lparr>claim_sub = agentId, claim_org_id = orgId, claim_iss = JWT_ISSUER,
              claim_aud = JWT_AUDIENCE,
              claim_exp = Some ((now W + 500) div 1000 + JWT_TTL_MINUTES * 60),
              claim_iat = (now W + 500) div 1000\<rparr>))"

text \<open>
  The token is opened with the secret (signature check and decoding are the library's);
  then expiry, issuer and audience are checked. An absent or zero \<open>exp\<close> is not checked.
\<close>

definition verifyAgentJWT :: "lib \<Rightarrow> world \<Rightarrow> string \<Rightarrow> (string \<times> string) outcome" where
  "verifyAgentJWT L W token =
     (if JWT_SECRET W = [] then Throws ''JWT_SECRET environment variable not set''
      else case jwt_open L (JWT_SECRET W) token of
        Inl m \<Rightarrow> Throws (''JWT verification failed: '' @ m)
      | Inr payload \<Rightarrow>
          if (case claim_exp payload of
                None \<Rightarrow> False
              | Some e \<Rightarrow> e \<noteq> 0 \<and> (of_int e :: rat) < of_int (now W) / 1000)
          then Throws ''JWT verification failed: JWT expired''
          else if claim_iss payload \<noteq> JWT_ISSUER \<or> claim_aud payload \<noteq> JWT_AUDIENCE
          then Throws ''JWT verification failed: Invalid JWT issuer or audience''
          else Returns (claim_sub payload, claim_org_id payload))"

text \<open>
  \<open>validateTimestamp\<close>: an unparsable timestamp has time value NaN, every comparison
  with NaN is false, and the function returns false.
\<close>

definition validateTimestamp :: "lib \<Rightarrow> world \<Rightarrow> string \<Rightarrow> bool" where
  "validateTimestamp L W timestamp =
     (case date_parse L timestamp of
        None \<Rightarrow> False
      | Some ts \<Rightarrow>
          (let diffMinutes = (of_int \<bar>now W - ts\<bar> :: rat) / (1000 * 60)
           in diffMinutes \<le> 5))"

section \<open>\<open>POST /ingest\<close>\<close>

text \<open>A header the handler treats as present: set and not the empty string.\<close>

definition header :: "request \<Rightarrow> string \<Rightarrow> string option" where
  "header req k = (case req_headers req k of None \<Rightarrow> None | Some v \<Rightarrow> if v = [] then None else Some v)"

record ingest_ctx =
  ctx_server :: server_row
  ctx_agentId :: string
  ctx_orgId :: string
  ctx_nonce :: string
  ctx_bodyText :: string

text \<open>
  The handler up to and including signature verification. It only reads the store. The
  replay check is the read \<open>isNonceUsed\<close>; the nonce is written later, by \<open>storeNonce\<close>.
\<close>

definition ingest_verify :: "lib \<Rightarrow> world \<Rightarrow> store \<Rightarrow> request \<Rightarrow> response + ingest_ctx" where
  "ingest_verify L W s req =
     (case (header req ''Authorization'', header req ''X-Timestamp'',
            header req ''X-Nonce'', header req ''X-Signature'') of
        (Some authHeader, Some timestamp, Some nonce, Some signature) \<Rightarrow>
          if \<not> validateTimestamp L W timestamp
          then Inl (errorResponse ''Invalid or expired timestamp'' 401)
          else
            (case verifyAgentJWT L W (strip_bearer L authHeader) of
               Throws m \<Rightarrow> Inl (errorResponse (''JWT verification failed: '' @ m) 401)
             | Returns (agentId, orgId) \<Rightarrow>
            (case createServiceClient W of
               Throws m \<Rightarrow> Inl (internalError m)
             | Returns u \<Rightarrow>
            (case getServerByAgentId W s agentId of
               Throws m \<Rightarrow> Inl (internalError m)
             | Returns None \<Rightarrow> Inl (errorResponse ''Server not found'' 403)
             | Returns (Some server) \<Rightarrow>
                 if srv_org_id server \<noteq> orgId
                 then Inl (errorResponse ''Organization mismatch'' 403)
                 else
            (case isNonceUsed W s orgId agentId nonce of
               Throws m \<Rightarrow> Inl (internalError m)
             | Returns True \<Rightarrow> Inl (errorResponse ''Nonce already used (replay detected)'' 409)
             | Returns False \<Rightarrow>
            (case (if req_headers req ''Content-Encoding'' = Some ''gzip''
                   then gunzip L (req_body req) else Inr (req_body req)) of
               Inl m \<Rightarrow> Inl (internalError m)
             | Inr bodyText \<Rightarrow>
                 if \<not> verifyHMAC L (srv_hmac_secret server) timestamp nonce
                        (hashBody L bodyText) signature
                 then Inl (errorResponse ''Invalid HMAC signature'' 403)
                 else Inr \<lparr>ctx_server = server, ctx_agentId = agentId, ctx_orgId = orgId,
                           ctx_nonce = nonce, ctx_bodyText = bodyText\<rparr>)))))
      | _ \<Rightarrow> Inl (errorResponse ''Missing required headers'' 400))"

text \<open>
  A write through the store client does not throw: a failed write returns an error
  object. The handler awaits each write of the commit phase and discards the result, so
  a failed write leaves its table as it was and the handler goes on to the next one.
\<close>

definition write_unchecked :: "world \<Rightarrow> store_op \<Rightarrow> (store \<Rightarrow> store) \<Rightarrow> store \<Rightarrow> store" where
  "write_unchecked W op f s = (case faults W op of Some m \<Rightarrow> s | None \<Rightarrow> f s)"

text \<open>\<open>.update(cols)\<close> assigns the given columns and keeps the others.\<close>

definition set_cols :: "row \<Rightarrow> row \<Rightarrow> row" where
  "set_cols new old = new @ filter (\<lambda>(k, v). k \<notin> fst ` set new) old"

definition server_fact_cols :: "json option \<Rightarrow> row" where
  "server_fact_cols facts = obj
     [(''hostname'', jget facts ''hostname''),
      (''os_name'', jget (jget facts ''os'') ''name''),
      (''os_version'', jget (jget facts ''os'') ''version''),
      (''kernel'', jget facts ''kernel''),
      (''cpu_model'', jget (jget facts ''cpu'') ''model''),
      (''cores'', jget (jget facts ''cpu'') ''cores''),
      (''mem_bytes'', jget facts ''mem_bytes''),
      (''agent_version'', jget facts ''agent_version''),
      (''tags'', jor (jget facts ''tags'') (JObj []))]"

definition update_server_facts :: "world \<Rightarrow> string \<Rightarrow> json option \<Rightarrow> store \<Rightarrow> store" where
  "update_server_facts W agentId facts s =
     s\<lparr>servers := map (\<lambda>r. if srv_agent_id r = agentId
                               then r\<lparr>srv_cols := set_cols (server_fact_cols facts) (srv_cols r),
                                      srv_last_seen := Some (now W)\<rparr>
                               else r) (servers s)\<rparr>"

definition heartbeat_row :: "string \<Rightarrow> string \<Rightarrow> json option \<Rightarrow> row" where
  "heartbeat_row orgId serverId hb = obj
     [(''org_id'', Some (JStr orgId)),
      (''server_id'', Some (JStr serverId)),
      (''ts'', jget hb ''ts''),
      (''uptime_s'', jget hb ''uptime_s''),
      (''load_1m'', jget (jget hb ''load'') ''m1''),
      (''load_5m'', jget (jget hb ''load'') ''m5''),
      (''load_15m'', jget (jget hb ''load'') ''m15''),
      (''cpu_pct'', jget hb ''cpu_pct''),
      (''mem_used'', jget (jget hb ''mem'') ''used''),
      (''mem_free'', jget (jget hb ''mem'') ''free''),
      (''swap_used'', jget (jget hb ''mem'') ''swap_used'')]"

definition disk_row :: "string \<Rightarrow> string \<Rightarrow> string \<Rightarrow> json \<Rightarrow> row" where
  "disk_row orgId serverId nowIso disk = obj
     [(''org_id'', Some (JStr orgId)),
      (''server_id'', Some (JStr serverId)),
      (''ts'', Some (JStr nowIso)),
      (''mount'', jget (Some disk) ''mount''),
      (''fs'', jget (Some disk) ''fs''),
      (''size_bytes'', jget (Some disk) ''size_bytes''),
      (''used_bytes'', jget (Some disk) ''used_bytes''),
      (''inodes_used'', jget (Some disk) ''inodes_used'')]"

definition iface_row :: "string \<Rightarrow> string \<Rightarrow> string \<Rightarrow> json \<Rightarrow> row" where
  "iface_row orgId serverId nowIso iface = obj
     [(''org_id'', Some (JStr orgId)),
      (''server_id'', Some (JStr serverId)),
      (''ts'', Some (JStr nowIso)),
      (''name'', jget (Some iface) ''name''),
      (''mac'', jget (Some iface) ''mac''),
      (''ipv4'', jget (Some iface) ''ipv4''),
      (''ipv6'', jget (Some iface) ''ipv6''),
      (''rx_bytes'', jget (Some iface) ''rx_bytes''),
      (''tx_bytes'', jget (Some iface) ''tx_bytes'')]"

text \<open>The handler reads \<open>proc.user\<close>, a key the process schema does not have.\<close>

definition process_row :: "string \<Rightarrow> string \<Rightarrow> string \<Rightarrow> json \<Rightarrow> row" where
  "process_row orgId serverId nowIso proc = obj
     [(''org_id'', Some (JStr orgId)),
      (''server_id'', Some (JStr serverId)),
      (''ts'', Some (JStr nowIso)),
      (''pid'', jget (Some proc) ''pid''),
      (''cmd'', jget (Some proc) ''cmd''),
      (''cpu_pct'', jget (Some proc) ''cpu_pct''),
      (''mem_bytes'', jget (Some proc) ''mem_bytes''),
      (''usr'', jget (Some proc) ''user'')]"

definition package_row :: "string \<Rightarrow> string \<Rightarrow> string \<Rightarrow> json \<Rightarrow> row" where
  "package_row orgId serverId nowIso pkg = obj
     [(''org_id'', Some (JStr orgId)),
      (''server_id'', Some (JStr serverId)),
      (''ts'', Some (JStr nowIso)),
      (''name'', jget (Some pkg) ''name''),
      (''version'', jget (Some pkg) ''version''),
      (''status'', jget (Some pkg) ''status'')]"

definition updates_row :: "string \<Rightarrow> string \<Rightarrow> string \<Rightarrow> json option \<Rightarrow> row" where
  "updates_row orgId serverId nowIso upd = obj
     [(''org_id'', Some (JStr orgId)),
      (''server_id'', Some (JStr serverId)),
      (''ts'', Some (JStr nowIso)),
      (''security_updates_count'', jget upd ''security_updates_count''),
      (''regular_updates_count'', jget upd ''regular_updates_count''),
      (''details'', jget upd ''details'')]"

definition log_row :: "string \<Rightarrow> string \<Rightarrow> json \<Rightarrow> row" where
  "log_row orgId serverId entry = obj
     [(''org_id'', Some (JStr orgId)),
      (''server_id'', Some (JStr serverId)),
      (''ts'', jget (Some entry) ''ts''),
      (''source'', jget (Some entry) ''source''),
      (''level'', jget (Some entry) ''level''),
      (''message'', jget (Some entry) ''message''),
      (''raw'', jget (Some entry) ''raw'')]"

text \<open>
  The eight writes of the commit phase, in the handler's order. Each list is written
  only when it is not empty, the updates summary only when it is present.
\<close>

definition ingest_writes :: "lib \<Rightarrow> world \<Rightarrow> ingest_ctx \<Rightarrow> json option \<Rightarrow> store \<Rightarrow> store" where
  "ingest_writes L W c data s =
     (let orgId = ctx_orgId c; serverId = srv_id (ctx_server c); nowIso = to_iso L (now W);
          s1 = write_unchecked W ServersUpdate
                 (update_server_facts W (ctx_agentId c) (jget data ''server'')) s;
          s2 = write_unchecked W HeartbeatsInsert
                 (\<lambda>t. t\<lparr>heartbeats := heartbeats t @
                        [heartbeat_row orgId serverId (jget data ''heartbeat'')]\<rparr>) s1;
          s3 = (if truthy (jget data ''disks'') \<and> length (jelems (jget data ''disks'')) > 0
                then write_unchecked W DisksInsert
                       (\<lambda>t. t\<lparr>disks := disks t @
                          map (disk_row orgId serverId nowIso) (jelems (jget data ''disks''))\<rparr>) s2
                else s2);
          s4 = (if truthy (jget data ''network_ifaces'')
                   \<and> length (jelems (jget data ''network_ifaces'')) > 0
                then write_unchecked W NetworkIfacesInsert
                       (\<lambda>t. t\<lparr>network_ifaces := network_ifaces t @
                          map (iface_row orgId serverId nowIso)
                            (jelems (jget data ''network_ifaces''))\<rparr>) s3
                else s3);
          s5 = (if truthy (jget data ''processes'')
                   \<and> length (jelems (jget data ''processes'')) > 0
                then write_unchecked W ProcessesInsert
                       (\<lambda>t. t\<lparr>processes := processes t @
                          map (process_row orgId serverId nowIso)
                            (jelems (jget data ''processes''))\<rparr>) s4
                else s4);
          s6 = (if truthy (jget data ''packages'') \<and> length (jelems (jget data ''packages'')) > 0
                then write_unchecked W PackagesInsert
                       (\<lambda>t. t\<lparr>packages := packages t @
                          map (package_row orgId serverId nowIso)
                            (jelems (jget data ''packages''))\<rparr>) s5
                else s5);
          s7 = (if truthy (jget data ''updates'')
                then write_unchecked W UpdatesInsert
                       (\<lambda>t. t\<lparr>updates := updates t @
                          [updates_row orgId serverId nowIso (jget data ''updates'')]\<rparr>) s6
                else s6);
          s8 = (if truthy (jget data ''logs'') \<and> length (jelems (jget data ''logs'')) > 0
                then write_unchecked W LogsInsert
                       (\<lambda>t. t\<lparr>logs := logs t @
                          map (log_row orgId serverId) (jelems (jget data ''logs''))\<rparr>) s7
                else s7)
      in s8)"

text \<open>After the nonce is stored: parse the body, validate it, write.\<close>

definition ingest_commit :: "lib \<Rightarrow> world \<Rightarrow> ingest_ctx \<Rightarrow> store \<Rightarrow> store \<times> response" where
  "ingest_commit L W c s =
     (case json_parse L (ctx_bodyText c) of
        Inl m \<Rightarrow> (s, internalError m)
      | Inr payload \<Rightarrow>
          (case safeParse L IngestPayloadSchema payload of
             Inl issues \<Rightarrow> (s, validationErrorResponse (format_issues issues))
           | Inr data \<Rightarrow>
               (ingest_writes L W c data s,
                jsonResponse (JObj [(''success'', JBool True),
                                    (''received_at'', JStr (to_iso L (now W)))]) 200)))"

definition ingest :: "lib \<Rightarrow> world \<Rightarrow> store \<Rightarrow> request \<Rightarrow> store \<times> response" where
  "ingest L W s req =
     (if req_method req = ''OPTIONS'' then (s, handleCORS)
      else if req_method req \<noteq> ''POST'' then (s, errorResponse ''Method not allowed'' 405)
      else
        (case ingest_verify L W s req of
           Inl r \<Rightarrow> (s, r)
         | Inr c \<Rightarrow>
             (case storeNonce W s (ctx_orgId c) (ctx_agentId c) (ctx_nonce c) of
                Throws m \<Rightarrow> (s, internalError m)
              | Returns s' \<Rightarrow> ingest_commit L W c s')))"

subsection \<open>The handler as a sequence of store operations\<close>

text \<open>
  Between the handler's store operations other requests may run. The handler is cut at
  the two points that matter for the nonce: after verification (which only reads, the
  replay check included) and after \<open>storeNonce\<close>. Each of the three parts is taken
  as one step; run one after the other they are the handler. A request is at \<open>Start\<close>, has been
  \<open>Verified\<close>, has \<open>Stored\<close> its nonce, has been \<open>Rejected\<close> before the commit phase, or
  has gone through the commit phase (\<open>Committed\<close>).
\<close>

datatype progress =
    Start
  | Verified ingest_ctx
  | Stored ingest_ctx
  | Rejected response
  | Committed ingest_ctx response

fun ingest_step :: "lib \<Rightarrow> world \<Rightarrow> request \<Rightarrow> store \<times> progress \<Rightarrow> store \<times> progress" where
  "ingest_step L W req (s, Start) =
     (if req_method req = ''OPTIONS'' then (s, Rejected handleCORS)
      else if req_method req \<noteq> ''POST''
      then (s, Rejected (errorResponse ''Method not allowed'' 405))
      else (case ingest_verify L W s req of
              Inl r \<Rightarrow> (s, Rejected r)
            | Inr c \<Rightarrow> (s, Verified c)))"
| "ingest_step L W req (s, Verified c) =
     (case storeNonce W s (ctx_orgId c) (ctx_agentId c) (ctx_nonce c) of
        Throws m \<Rightarrow> (s, Rejected (internalError m))
      | Returns s' \<Rightarrow> (s', Stored c))"
| "ingest_step L W req (s, Stored c) =
     (case ingest_commit L W c s of (s', r) \<Rightarrow> (s', Committed c r))"
| "ingest_step L W req (s, Rejected r) = (s, Rejected r)"
| "ingest_step L W req (s, Committed c r) = (s, Committed c r)"

text \<open>The response of a finished request.\<close>

fun answer :: "progress \<Rightarrow> response option" where
  "answer (Rejected r) = Some r"
| "answer (Committed c r) = Some r"
| "answer p = None"

text \<open>
  Two requests \<open>A\<close> and \<open>B\<close> handled at the same time: a schedule says whose turn it is
  (\<open>True\<close> for \<open>A\<close>), and each turn is one step of that request on the shared store.
\<close>

fun run2 ::
  "lib \<Rightarrow> world \<Rightarrow> world \<Rightarrow> request \<Rightarrow> request \<Rightarrow> bool list
     \<Rightarrow> store \<times> progress \<times> progress \<Rightarrow> store \<times> progress \<times> progress" where
  "run2 L WA WB reqA reqB [] cfg = cfg"
| "run2 L WA WB reqA reqB (True # sched) (s, pA, pB) =
     (case ingest_step L WA reqA (s, pA) of
        (s', pA') \<Rightarrow> run2 L WA WB reqA reqB sched (s', pA', pB))"
| "run2 L WA WB reqA reqB (False # sched) (s, pA, pB) =
     (case ingest_step L WB reqB (s, pB) of
        (s', pB') \<Rightarrow> run2 L WA WB reqA reqB sched (s', pA, pB'))"

section \<open>\<open>POST /enroll\<close>\<close>

text \<open>The text of a validated string field, and of a text column.\<close>

fun jstr :: "json option \<Rightarrow> string" where
  "jstr (Some (JStr x)) = x"
| "jstr _ = []"

text \<open>
  Inserting a server row fails when it would break the primary key or one of the unique
  indexes \<open>servers (org_id, machine_id)\<close> and \<open>servers.agent_id\<close>.
\<close>

definition server_conflict :: "server_row \<Rightarrow> store \<Rightarrow> bool" where
  "server_conflict r s =
     (\<exists>x \<in> set (servers s).
        srv_id x = srv_id r \<or> srv_agent_id x = srv_agent_id r
        \<or> (srv_org_id x = srv_org_id r \<and> srv_machine_id x = srv_machine_id r))"

definition insert_server :: "server_row \<Rightarrow> store \<Rightarrow> store" where
  "insert_server r s = (if server_conflict r s then s else s\<lparr>servers := servers s @ [r]\<rparr>)"

text \<open>Body parsing and validation: the secret and the host facts of a well-formed request.\<close>

definition enroll_parse :: "lib \<Rightarrow> request \<Rightarrow> response + (string \<times> json option)" where
  "enroll_parse L req =
     (case json_parse L (req_body req) of
        Inl m \<Rightarrow> Inl (internalError m)
      | Inr b \<Rightarrow>
          (case safeParse L EnrollRequestSchema b of
             Inl issues \<Rightarrow> Inl (validationErrorResponse (format_issues issues))
           | Inr data \<Rightarrow> Inr (jstr (jget data ''org_enroll_secret''), jget data ''host_facts'')))"

text \<open>
  The existence check reads only the data of the query's result: when the query fails,
  or matches no row (or several), the host is taken to be new. Neither the update nor the
  insert is checked.
\<close>

definition existing_server :: "world \<Rightarrow> store \<Rightarrow> string \<Rightarrow> string \<Rightarrow> server_row option" where
  "existing_server W s orgId machineId =
     (case faults W ServersSelect of
        Some m \<Rightarrow> None
      | None \<Rightarrow> single (filter (\<lambda>r. srv_org_id r = orgId \<and> srv_machine_id r = machineId)
                  (servers s)))"

definition enroll_store ::
  "world \<Rightarrow> store \<Rightarrow> string \<Rightarrow> json option \<Rightarrow> store \<times> string \<times> string \<times> string" where
  "enroll_store W s orgId host_facts =
     (case existing_server W s orgId (jstr (jget host_facts ''machine_id'')) of
        Some existingServer \<Rightarrow>
          (write_unchecked W ServersUpdate
             (update_server_facts W (srv_agent_id existingServer) host_facts) s,
           srv_agent_id existingServer, srv_hmac_secret existingServer,
           srv_refresh_token existingServer)
      | None \<Rightarrow>
          (let agentId = random_uuid W;
               hmacSecret = generateSecret W 32;
               refreshToken = generateSecret W 64
           in (write_unchecked W ServersInsert
                 (insert_server
                    \<lparr>srv_id = db_default_id W, srv_org_id = orgId, srv_agent_id = agentId,
                     srv_machine_id = jstr (jget host_facts ''machine_id''),
                     srv_cols = server_fact_cols host_facts,
                     srv_hmac_secret = hmacSecret, srv_refresh_token = refreshToken,
                     srv_first_seen = Some (now W), srv_last_seen = Some (now W)\<rparr>) s,
               agentId, hmacSecret, refreshToken)))"

definition enroll :: "lib \<Rightarrow> world \<Rightarrow> store \<Rightarrow> request \<Rightarrow> store \<times> response" where
  "enroll L W s req =
     (if req_method req = ''OPTIONS'' then (s, handleCORS)
      else if req_method req \<noteq> ''POST'' then (s, errorResponse ''Method not allowed'' 405)
      else
        (case enroll_parse L req of
           Inl r \<Rightarrow> (s, r)
         | Inr (org_enroll_secret, host_facts) \<Rightarrow>
        (case createServiceClient W of
           Throws m \<Rightarrow> (s, internalError m)
         | Returns u \<Rightarrow>
        (case getOrgBySecretHash W s (hashSecret L org_enroll_secret) of
           Throws m \<Rightarrow> (s, internalError m)
         | Returns None \<Rightarrow> (s, errorResponse ''Invalid enrollment secret'' 403)
         | Returns (Some org) \<Rightarrow>
             (case enroll_store W s (org_id org) host_facts of
                (s', agentId, hmacSecret, refreshToken) \<Rightarrow>
                  (case createAgentJWT L W agentId (org_id org) of
                     Throws m \<Rightarrow> (s', internalError m)
                   | Returns agentJwt \<Rightarrow>
                       (s', jsonResponse (JObj
                          [(''agent_id'', JStr agentId),
                           (''agent_jwt'', JStr agentJwt),
                           (''refresh_token'', JStr refreshToken),
                           (''hmac_secret'', JStr hmacSecret),
                           (''org_id'', JStr (org_id org))]) 200)))))))"

section \<open>Scheduled functions\<close>

text \<open>
  The three scheduled functions start with the same check: the request is refused only
  when \<open>CRON_SECRET\<close> is set (and not empty) and the \<open>Authorization\<close> header is not
  exactly \<open>Bearer\<close>, a space and the secret.
\<close>

definition cron_refused :: "world \<Rightarrow> request \<Rightarrow> bool" where
  "cron_refused W req =
     (case denv W ''CRON_SECRET'' of
        None \<Rightarrow> False
      | Some cronSecret \<Rightarrow>
          cronSecret \<noteq> [] \<and> req_headers req ''Authorization'' \<noteq> Some (''Bearer '' @ cronSecret))"

subsection \<open>\<open>nonce-cleanup\<close>\<close>

definition nonce_cleanup :: "lib \<Rightarrow> world \<Rightarrow> store \<Rightarrow> request \<Rightarrow> store \<times> response" where
  "nonce_cleanup L W s req =
     (if cron_refused W req then (s, errorResponse ''Unauthorized'' 401)
      else
        (case createServiceClient W of
           Throws m \<Rightarrow> (s, internalError m)
         | Returns u \<Rightarrow>
             (case cleanupOldNonces W s 10 of
                Throws m \<Rightarrow> (s, internalError m)
              | Returns (s', deletedCount) \<Rightarrow>
                  (s', jsonResponse (JObj
                     [(''success'', JBool True),
                      (''timestamp'', JStr (to_iso L (now W))),
                      (''nonces_deleted'', JNum (of_nat deletedCount))]) 200))))"

subsection \<open>\<open>offline-detector\<close>\<close>

definition OFFLINE_THRESHOLD_MINUTES :: int where
  "OFFLINE_THRESHOLD_MINUTES = 10"

definition is_open_offline :: "string \<Rightarrow> alert_row \<Rightarrow> bool" where
  "is_open_offline serverId a =
     (alert_server_id a = serverId \<and> alert_type a = ''offline'' \<and> alert_status a = ''open'')"

text \<open>
  The query for the open offline alert of a server, with \<open>.single()\<close>; only the data of
  the result is read.
\<close>

definition open_offline_alert :: "world \<Rightarrow> alert_row list \<Rightarrow> string \<Rightarrow> alert_row option" where
  "open_offline_alert W as serverId =
     (case faults W AlertsSelect of
        Some m \<Rightarrow> None
      | None \<Rightarrow> single (filter (is_open_offline serverId) as))"

text \<open>The key the store assigns to a new alert: one that no alert has yet.\<close>

definition fresh_alert_id :: "alert_row list \<Rightarrow> nat" where
  "fresh_alert_id as = Suc (foldr max (map alert_id as) 0)"

definition last_seen_text :: "lib \<Rightarrow> server_row \<Rightarrow> string" where
  "last_seen_text L server =
     (case srv_last_seen server of None \<Rightarrow> ''null'' | Some t \<Rightarrow> to_iso L t)"

definition offline_alert :: "lib \<Rightarrow> world \<Rightarrow> alert_row list \<Rightarrow> server_row \<Rightarrow> alert_row" where
  "offline_alert L W as server =
     \<lparr>alert_id = fresh_alert_id as,
      alert_org_id = srv_org_id server,
      alert_server_id = srv_id server,
      alert_ts = now W,
      alert_type = ''offline'',
      alert_severity = ''critical'',
      alert_message = ''Server '' @ jstr (map_of (srv_cols server) ''hostname'')
         @ '' is offline (last seen: '' @ last_seen_text L server @ '')'',
      alert_status = ''open''\<rparr>"

text \<open>First loop: one alert for each offline server that has no open offline alert.\<close>

fun create_alerts ::
  "lib \<Rightarrow> world \<Rightarrow> server_row list \<Rightarrow> alert_row list \<times> nat \<Rightarrow> alert_row list \<times> nat" where
  "create_alerts L W [] (as, alertsCreated) = (as, alertsCreated)"
| "create_alerts L W (server # rest) (as, alertsCreated) =
     (case open_offline_alert W as (srv_id server) of
        None \<Rightarrow>
          create_alerts L W rest
            ((case faults W AlertsInsert of
                Some m \<Rightarrow> as
              | None \<Rightarrow> as @ [offline_alert L W as server]),
             alertsCreated + 1)
      | Some existingAlert \<Rightarrow> create_alerts L W rest (as, alertsCreated))"

text \<open>\<open>.update({status: "cleared"}).eq("id", k)\<close> on the alerts.\<close>

definition clear_by_id :: "nat \<Rightarrow> alert_row list \<Rightarrow> alert_row list" where
  "clear_by_id k as =
     map (\<lambda>a. if alert_id a = k then a\<lparr>alert_status := ''cleared''\<rparr> else a) as"

text \<open>Second loop: the open offline alert of each online server is cleared.\<close>

fun clear_alerts ::
  "world \<Rightarrow> server_row list \<Rightarrow> alert_row list \<times> nat \<Rightarrow> alert_row list \<times> nat" where
  "clear_alerts W [] (as, alertsCleared) = (as, alertsCleared)"
| "clear_alerts W (server # rest) (as, alertsCleared) =
     (case open_offline_alert W as (srv_id server) of
        Some openAlert \<Rightarrow>
          clear_alerts W rest
            ((case faults W AlertsUpdate of
                Some m \<Rightarrow> as
              | None \<Rightarrow> clear_by_id (alert_id openAlert) as),
             alertsCleared + 1)
      | None \<Rightarrow> clear_alerts W rest (as, alertsCleared))"

definition seen_before :: "int \<Rightarrow> server_row \<Rightarrow> bool" where
  "seen_before cutoffTime r = (case srv_last_seen r of None \<Rightarrow> False | Some t \<Rightarrow> t < cutoffTime)"

definition seen_since :: "int \<Rightarrow> server_row \<Rightarrow> bool" where
  "seen_since cutoffTime r = (case srv_last_seen r of None \<Rightarrow> False | Some t \<Rightarrow> t \<ge> cutoffTime)"

definition offline_detector :: "lib \<Rightarrow> world \<Rightarrow> store \<Rightarrow> request \<Rightarrow> store \<times> response" where
  "offline_detector L W s req =
     (if cron_refused W req then (s, errorResponse ''Unauthorized'' 401)
      else
        (case createServiceClient W of
           Throws m \<Rightarrow> (s, internalError m)
         | Returns u \<Rightarrow>
        (case faults W ServersSelect of
           Some m \<Rightarrow> (s, internalError m)
         | None \<Rightarrow>
             (let cutoffTime = now W - OFFLINE_THRESHOLD_MINUTES * 60 * 1000;
                  offlineServers = filter (seen_before cutoffTime) (servers s);
                  (as1, alertsCreated) = create_alerts L W offlineServers (alerts s, 0);
                  onlineServers = filter (seen_since cutoffTime) (servers s);
                  (as2, alertsCleared) = clear_alerts W onlineServers (as1, 0)
              in (s\<lparr>alerts := as2\<rparr>,
                  jsonResponse (JObj
                    [(''success'', JBool True),
                     (''timestamp'', JStr (to_iso L (now W))),
                     (''offline_servers'', JNum (of_nat (length offlineServers))),
                     (''alerts_created'', JNum (of_nat alertsCreated)),
                     (''alerts_cleared'', JNum (of_nat alertsCleared))]) 200)))))"

subsection \<open>\<open>rollup-builder\<close>\<close>

text \<open>
  The handler writes its aggregates with one SQL statement per granularity, an
  \<open>INSERT ... SELECT ... GROUP BY ... ON CONFLICT (server_id, bucket) DO UPDATE\<close>, to be
  run by a stored procedure \<open>exec_sql\<close>. What such a statement does to the store is
  \<open>rollup_statement\<close>: the heartbeats with \<open>lo \<le> ts < hi\<close> are grouped by truncated
  timestamp, organisation and server; each group yields one row, which replaces the
  aggregates of the row with the same server and bucket or is added. A column without a
  number is NULL (\<open>None\<close>) and is skipped by the aggregates.
\<close>

datatype granularity = Minute | Hour

fun bucket_width :: "granularity \<Rightarrow> int" where
  "bucket_width Minute = 60 * 1000"
| "bucket_width Hour = 60 * 60 * 1000"

definition date_trunc :: "granularity \<Rightarrow> int \<Rightarrow> int" where
  "date_trunc g ts = (ts div bucket_width g) * bucket_width g"

definition hb_ts :: "lib \<Rightarrow> row \<Rightarrow> int option" where
  "hb_ts L r = (case map_of r ''ts'' of Some (JStr x) \<Rightarrow> date_parse L x | _ \<Rightarrow> None)"

definition hb_num :: "string \<Rightarrow> row \<Rightarrow> rat option" where
  "hb_num k r = (case map_of r k of Some (JNum x) \<Rightarrow> Some x | _ \<Rightarrow> None)"

definition in_window :: "lib \<Rightarrow> int \<Rightarrow> int \<Rightarrow> row \<Rightarrow> bool" where
  "in_window L lo hi r = (case hb_ts L r of None \<Rightarrow> False | Some t \<Rightarrow> lo \<le> t \<and> t < hi)"

definition group_key :: "lib \<Rightarrow> granularity \<Rightarrow> row \<Rightarrow> int \<times> string \<times> string" where
  "group_key L g r =
     (date_trunc g (case hb_ts L r of None \<Rightarrow> 0 | Some t \<Rightarrow> t),
      jstr (map_of r ''org_id''), jstr (map_of r ''server_id''))"

fun non_null :: "'a option list \<Rightarrow> 'a list" where
  "non_null [] = []"
| "non_null (None # vs) = non_null vs"
| "non_null (Some v # vs) = v # non_null vs"

definition sql_avg :: "rat option list \<Rightarrow> rat option" where
  "sql_avg vs = (case non_null vs of [] \<Rightarrow> None
                 | x # xs \<Rightarrow> Some (sum_list (x # xs) / of_nat (length (x # xs))))"

definition sql_max :: "rat option list \<Rightarrow> rat option" where
  "sql_max vs = (case non_null vs of [] \<Rightarrow> None | x # xs \<Rightarrow> Some (foldr max xs x))"

text \<open>\<open>PERCENTILE_CONT(f)\<close>: linear interpolation between the two nearest ranks.\<close>

definition percentile_cont :: "rat \<Rightarrow> rat option list \<Rightarrow> rat option" where
  "percentile_cont f vs =
     (case sort (non_null vs) of
        [] \<Rightarrow> None
      | x # xs \<Rightarrow>
          (let rank = f * of_nat (length xs);
               l = nat (floor rank); h = nat (ceiling rank)
           in Some ((x # xs) ! l + (rank - of_nat l) * ((x # xs) ! h - (x # xs) ! l))))"

definition aggregate :: "granularity \<Rightarrow> int \<times> string \<times> string \<Rightarrow> row list \<Rightarrow> rollup_row" where
  "aggregate g k rs =
     \<lparr>bucket = fst k, rollup_org_id = fst (snd k), rollup_server_id = snd (snd k),
      cpu_avg = sql_avg (map (hb_num ''cpu_pct'') rs),
      cpu_p95 = percentile_cont (95 / 100) (map (hb_num ''cpu_pct'') rs),
      cpu_max = (case g of Minute \<Rightarrow> None | Hour \<Rightarrow> sql_max (map (hb_num ''cpu_pct'') rs)),
      load1_avg = sql_avg (map (hb_num ''load_1m'') rs),
      load5_avg = sql_avg (map (hb_num ''load_5m'') rs),
      load15_avg = sql_avg (map (hb_num ''load_15m'') rs),
      mem_used_avg = sql_avg (map (hb_num ''mem_used'') rs),
      mem_free_avg = sql_avg (map (hb_num ''mem_free'') rs),
      swap_used_avg = sql_avg (map (hb_num ''swap_used'') rs),
      sample_count = length rs\<rparr>"

definition rollup_select :: "lib \<Rightarrow> granularity \<Rightarrow> int \<Rightarrow> int \<Rightarrow> row list \<Rightarrow> rollup_row list" where
  "rollup_select L g lo hi hbs =
     (let rs = filter (in_window L lo hi) hbs
      in map (\<lambda>k. aggregate g k (filter (\<lambda>r. group_key L g r = k) rs))
           (remdups (map (group_key L g) rs)))"

definition same_bucket :: "rollup_row \<Rightarrow> rollup_row \<Rightarrow> bool" where
  "same_bucket x y = (rollup_server_id x = rollup_server_id y \<and> bucket x = bucket y)"

text \<open>\<open>DO UPDATE SET\<close> overwrites every aggregate column with the new value.\<close>

definition overwrite :: "granularity \<Rightarrow> rollup_row \<Rightarrow> rollup_row \<Rightarrow> rollup_row" where
  "overwrite g new old =
     old\<lparr>cpu_avg := cpu_avg new, cpu_p95 := cpu_p95 new,
         cpu_max := (case g of Minute \<Rightarrow> cpu_max old | Hour \<Rightarrow> cpu_max new),
         load1_avg := load1_avg new, load5_avg := load5_avg new, load15_avg := load15_avg new,
         mem_used_avg := mem_used_avg new, mem_free_avg := mem_free_avg new,
         swap_used_avg := swap_used_avg new, sample_count := sample_count new\<rparr>"

definition upsert :: "granularity \<Rightarrow> rollup_row \<Rightarrow> rollup_row list \<Rightarrow> rollup_row list" where
  "upsert g new t =
     (if \<exists>x \<in> set t. same_bucket x new
      then map (\<lambda>x. if same_bucket x new then overwrite g new x else x) t
      else t @ [new])"

text \<open>
  A statement whose new rows hit the same (server, bucket) twice is rejected by the
  database and changes nothing.
\<close>

definition upsert_all :: "granularity \<Rightarrow> rollup_row list \<Rightarrow> rollup_row list \<Rightarrow> rollup_row list" where
  "upsert_all g new t =
     (if distinct (map (\<lambda>r. (rollup_server_id r, bucket r)) new)
      then foldl (\<lambda>t r. upsert g r t) t new
      else t)"

definition rollup_statement :: "lib \<Rightarrow> granularity \<Rightarrow> int \<Rightarrow> int \<Rightarrow> store \<Rightarrow> store" where
  "rollup_statement L g lo hi s =
     (case g of
        Minute \<Rightarrow> s\<lparr>heartbeats_rollup_1m :=
                     upsert_all g (rollup_select L g lo hi (heartbeats s)) (heartbeats_rollup_1m s)\<rparr>
      | Hour \<Rightarrow> s\<lparr>heartbeats_rollup_1h :=
                   upsert_all g (rollup_select L g lo hi (heartbeats s)) (heartbeats_rollup_1h s)\<rparr>)"

text \<open>
  The handler sends the one-minute statement to \<open>exec_sql\<close> and does not look at the
  result. It then computes the start of the one-hour bucket and builds the one-hour
  statement, but never sends it: the only trace of the one-hour rollup is the bucket
  start in the response.
\<close>

definition rollup_builder :: "lib \<Rightarrow> world \<Rightarrow> store \<Rightarrow> request \<Rightarrow> store \<times> response" where
  "rollup_builder L W s req =
     (if cron_refused W req then (s, errorResponse ''Unauthorized'' 401)
      else
        (case createServiceClient W of
           Throws m \<Rightarrow> (s, internalError m)
         | Returns u \<Rightarrow>
             (let twoMinutesAgo = now W - 2 * 60 * 1000;
                  bucket1m = (twoMinutesAgo div (60 * 1000)) * (60 * 1000);
                  s' = write_unchecked W ExecSql (rollup_statement L Minute bucket1m (now W)) s;
                  oneHourAgo = now W - 60 * 60 * 1000;
                  bucket1h = (oneHourAgo div (60 * 60 * 1000)) * (60 * 60 * 1000)
              in (s', jsonResponse (JObj
                    [(''success'', JBool True),
                     (''timestamp'', JStr (to_iso L (now W))),
                     (''message'', JStr ''Rollups computed (1m and 1h buckets)''),
                     (''bucket_1m'', JStr (to_iso L bucket1m)),
                     (''bucket_1h'', JStr (to_iso L bucket1h))]) 200))))"

section \<open>Notions used to state the properties\<close>


text \<open>
  A request is within its replay window at an invocation when it passes the first two
  checks there: its timestamp is fresh and its token verifies.
\<close>

definition within_replay_window :: "lib \<Rightarrow> world \<Rightarrow> request \<Rightarrow> bool" where
  "within_replay_window L W req =
     (case (header req ''Authorization'', header req ''X-Timestamp'') of
        (Some authHeader, Some timestamp) \<Rightarrow>
          validateTimestamp L W timestamp
          \<and> (case verifyAgentJWT L W (strip_bearer L authHeader) of
                Returns ids \<Rightarrow> True
              | Throws m \<Rightarrow> False)
      | _ \<Rightarrow> False)"

text \<open>
  The unique index \<open>servers (org_id, machine_id)\<close> holds of a store; the identifiers
  drawn for a new server row (the random agent id and the key the store assigns) are
  not in use.
\<close>

definition unique_hosts :: "store \<Rightarrow> bool" where
  "unique_hosts s = distinct (map (\<lambda>r. (srv_org_id r, srv_machine_id r)) (servers s))"

definition fresh_ids :: "world \<Rightarrow> store \<Rightarrow> bool" where
  "fresh_ids W s =
     (\<forall>x \<in> set (servers s). srv_id x \<noteq> db_default_id W \<and> srv_agent_id x \<noteq> random_uuid W)"

text \<open>
  The number of open offline alerts of a server; the invariant that no server has more
  than one; the primary keys of servers and alerts; an invocation in which the offline
  detector is admitted and none of its store operations fails.
\<close>

definition open_offline_count :: "string \<Rightarrow> alert_row list \<Rightarrow> nat" where
  "open_offline_count serverId as = length (filter (is_open_offline serverId) as)"

definition one_open_per_host :: "alert_row list \<Rightarrow> bool" where
  "one_open_per_host as = (\<forall>a \<in> set as. open_offline_count (alert_server_id a) as \<le> 1)"

definition primary_keys :: "store \<Rightarrow> bool" where
  "primary_keys s = (distinct (map srv_id (servers s)) \<and> distinct (map alert_id (alerts s)))"

definition detector_runs :: "world \<Rightarrow> request \<Rightarrow> bool" where
  "detector_runs W req =
     (\<not> cron_refused W req \<and> createServiceClient W = Returns ()
      \<and> faults W ServersSelect = None \<and> faults W AlertsSelect = None
      \<and> faults W AlertsInsert = None \<and> faults W AlertsUpdate = None)"

text \<open>The number of alerts whose status is \<open>cleared\<close>.\<close>

definition cleared_count :: "alert_row list \<Rightarrow> nat" where
  "cleared_count as = length (filter (\<lambda>a. alert_status a = ''cleared'') as)"

text \<open>A rollup table holds the aggregates of row \<open>r\<close>: upserting \<open>r\<close> would change nothing.\<close>

definition holds :: "granularity \<Rightarrow> rollup_row \<Rightarrow> rollup_row list \<Rightarrow> bool" where
  "holds g r t = ((\<exists>x \<in> set t. same_bucket x r)
                  \<and> (\<forall>x \<in> set t. same_bucket x r \<longrightarrow> overwrite g r x = x))"

text \<open>
  A request that has got past \<open>storeNonce\<close>; the context a request carries once
  verified; the number of commit phases a request has gone through (0 or 1).
\<close>

fun past_store :: "progress \<Rightarrow> bool" where
  "past_store (Stored c) = True"
| "past_store (Committed c r) = True"
| "past_store p = False"

fun ctx_of :: "progress \<Rightarrow> ingest_ctx option" where
  "ctx_of (Verified c) = Some c"
| "ctx_of (Stored c) = Some c"
| "ctx_of (Committed c r) = Some c"
| "ctx_of p = None"

fun committed :: "progress \<Rightarrow> nat" where
  "committed (Committed c r) = 1"
| "committed p = 0"

text \<open>The context of a verified request names the host of its token and its nonce.\<close>

definition ctx_ok :: "lib \<Rightarrow> world \<Rightarrow> request \<Rightarrow> ingest_ctx \<Rightarrow> bool" where
  "ctx_ok L W req c =
     (case header req ''Authorization'' of
        None \<Rightarrow> False
      | Some a \<Rightarrow>
          header req ''X-Nonce'' = Some (ctx_nonce c)
          \<and> verifyAgentJWT L W (strip_bearer L a) = Returns (ctx_agentId c, ctx_orgId c))"

text \<open>
  What holds at every moment while two copies of one request are handled: a request
  that is past \<open>storeNonce\<close> has its nonce in the store, the two are never both past it,
  each heartbeat row added belongs to a request that went through the commit phase,
  and no rejected request has been answered 200.
\<close>

definition race_inv ::
  "lib \<Rightarrow> world \<Rightarrow> world \<Rightarrow> request \<Rightarrow> store \<Rightarrow> store \<times> progress \<times> progress \<Rightarrow> bool" where
  "race_inv L WA WB req s0 cfg =
     (case cfg of (s, pA, pB) \<Rightarrow>
        (\<forall>c. ctx_of pA = Some c \<longrightarrow> ctx_ok L WA req c)
      \<and> (\<forall>c. ctx_of pB = Some c \<longrightarrow> ctx_ok L WB req c)
      \<and> (\<forall>c. (past_store pA \<and> ctx_of pA = Some c) \<or> (past_store pB \<and> ctx_of pB = Some c)
              \<longrightarrow> (\<exists>r \<in> set (api_nonces s).
                     nonce_matches (ctx_orgId c) (ctx_agentId c) (ctx_nonce c) r))
      \<and> \<not> (past_store pA \<and> past_store pB)
      \<and> length (heartbeats s) \<le> length (heartbeats s0) + committed pA + committed pB
      \<and> (\<forall>r. pA = Rejected r \<or> pB = Rejected r \<longrightarrow> status r \<noteq> 200))"

section \<open>A sample deployment\<close>

text \<open>
  Concrete values on which the theorems below are instantiated: stand-ins for the
  library functions, one organisation with one enrolled host, and a signed ingest
  request for it.
\<close>

definition sample_claims :: claims where
  "sample_claims =
     \<lparr>claim_sub = ''A1'', claim_org_id = ''O1'', claim_iss = ''godseye'',
      claim_aud = ''agent'', claim_exp = Some 3600, claim_iat = 0\<rparr>"

definition sample_facts :: "(string \<times> json) list" where
  "sample_facts =
     [(''hostname'', JStr ''web1''),
      (''machine_id'', JStr ''F1''),
      (''os'', JObj [(''name'', JStr ''Ubuntu''), (''version'', JStr ''22.04'')]),
      (''kernel'', JStr ''6.8''),
      (''cpu'', JObj [(''model'', JStr ''Xeon''), (''cores'', JNum 8)]),
      (''mem_bytes'', JNum 1024),
      (''agent_version'', JStr ''0.1.0'')]"

definition sample_heartbeat :: "rat \<Rightarrow> json" where
  "sample_heartbeat cpu = JObj
     [(''ts'', JStr ''T0''),
      (''uptime_s'', JNum 100),
      (''load'', JObj [(''m1'', JNum 1), (''m5'', JNum 1), (''m15'', JNum 1)]),
      (''cpu_pct'', JNum cpu),
      (''mem'', JObj [(''used'', JNum 10), (''free'', JNum 20), (''swap_used'', JNum 0)])]"

definition sample_payload :: json where
  "sample_payload = JObj
     [(''server'', JObj sample_facts),
      (''heartbeat'', sample_heartbeat 50),
      (''disks'', JArr
        [JObj [(''mount'', JStr ''/''), (''fs'', JStr ''ext4''),
               (''size_bytes'', JNum 100), (''used_bytes'', JNum 40)]])]"

text \<open>The same host with a CPU percentage outside the schema's range.\<close>

definition sample_bad_payload :: json where
  "sample_bad_payload = JObj
     [(''server'', JObj sample_facts),
      (''heartbeat'', sample_heartbeat 101)]"

text \<open>A payload with 51 processes and 201 log lines.\<close>

definition sample_process :: json where
  "sample_process = JObj
     [(''pid'', JNum 1), (''cmd'', JStr ''init''), (''cpu_pct'', JNum 0),
      (''mem_bytes'', JNum 1), (''usr'', JStr ''root'')]"

definition sample_log :: json where
  "sample_log = JObj
     [(''ts'', JStr ''T0''), (''source'', JStr ''syslog''), (''level'', JStr ''info''),
      (''message'', JStr ''started'')]"

definition sample_big_fields :: "(string \<times> json) list" where
  "sample_big_fields =
     [(''server'', JObj sample_facts),
      (''heartbeat'', sample_heartbeat 50),
      (''processes'', JArr (replicate 51 sample_process)),
      (''logs'', JArr (replicate 201 sample_log))]"

definition sample_enroll_body :: json where
  "sample_enroll_body = JObj
     [(''org_enroll_secret'', JStr ''0123456789abcdef0123456789abcdef''),
      (''host_facts'', JObj sample_facts)]"

definition sample_lib :: lib where
  "sample_lib =
     \<lparr>sha256_hex = (\<lambda>x. ''h:'' @ x),
      hmac_sha256_hex = (\<lambda>k m. ''mac:'' @ k),
      jwt_open = (\<lambda>secret token. if token = ''tok-A1'' then Inr sample_claims
                                    else Inl ''Invalid JWT signature''),
      jwt_create = (\<lambda>secret c. ''tok-'' @ claim_sub c),
      date_parse = (\<lambda>x. if x = ''T0'' then Some 0
                         else if x = ''T11'' then Some 660000 else None),
      to_iso = (\<lambda>t. if t = 0 then ''T0'' else ''T''),
      gunzip = (\<lambda>b. Inr b),
      json_parse = (\<lambda>b. if b = ''B1'' then Inr sample_payload
                          else if b = ''B2'' then Inr sample_bad_payload
                          else if b = ''B3'' then Inr (JObj sample_big_fields)
                          else if b = ''E1'' then Inr sample_enroll_body
                          else Inl ''Unexpected token''),
      strip_bearer = drop 7,
      is_uuid = (\<lambda>x. True),
      is_datetime = (\<lambda>x. True)\<rparr>"

definition sample_env :: "string \<Rightarrow> string option" where
  "sample_env k =
     (if k = ''SUPABASE_URL'' then Some ''https://db''
      else if k = ''SUPABASE_SERVICE_ROLE_KEY'' then Some ''service-key''
      else if k = ''JWT_SECRET'' then Some ''jwt-secret''
      else if k = ''CRON_SECRET'' then Some ''cron''
      else None)"

text \<open>An invocation at instant \<open>t\<close> in which no store operation fails.\<close>

definition sample_world :: "int \<Rightarrow> world" where
  "sample_world t =
     \<lparr>denv = sample_env, now = t, faults = (\<lambda>op. None), random_uuid = ''A2'',
      random_secret = (\<lambda>n. if n = 32 then ''K2'' else ''R2''), db_default_id = ''S2''\<rparr>"

definition sample_server :: server_row where
  "sample_server =
     \<lparr>srv_id = ''S1'', srv_org_id = ''O1'', srv_agent_id = ''A1'', srv_machine_id = ''F1'',
      srv_cols = [(''hostname'', JStr ''web1'')], srv_hmac_secret = ''K1'',
      srv_refresh_token = ''R1'', srv_first_seen = Some 0, srv_last_seen = Some 0\<rparr>"

definition sample_store :: store where
  "sample_store =
     \<lparr>orgs = [\<lparr>org_id = ''O1'', org_name = ''Acme'',
               org_enroll_secret_hash = ''h:0123456789abcdef0123456789abcdef''\<rparr>],
      servers = [sample_server],
      api_nonces = [], heartbeats = [], disks = [], network_ifaces = [], processes = [],
      packages = [], updates = [], logs = [], alerts = [],
      heartbeats_rollup_1m = [], heartbeats_rollup_1h = []\<rparr>"

definition sample_headers :: "string \<Rightarrow> string option" where
  "sample_headers k =
     (if k = ''Authorization'' then Some ''Bearer tok-A1''
      else if k = ''X-Timestamp'' then Some ''T0''
      else if k = ''X-Nonce'' then Some ''n1''
      else if k = ''X-Signature'' then Some ''mac:K1''
      else None)"

definition sample_request :: request where
  "sample_request = \<lparr>req_method = ''POST'', req_headers = sample_headers, req_body = ''B1''\<rparr>"

text \<open>A deployment without \<open>CRON_SECRET\<close>, a request without headers, the scheduler's request.\<close>

definition open_world :: "int \<Rightarrow> world" where
  "open_world t =
     (sample_world t)\<lparr>denv := (\<lambda>k. if k = ''CRON_SECRET'' then None else sample_env k)\<rparr>"

definition anonymous_request :: request where
  "anonymous_request = \<lparr>req_method = ''POST'', req_headers = (\<lambda>k. None), req_body = []\<rparr>"

definition cron_request :: request where
  "cron_request =
     \<lparr>req_method = ''POST'',
      req_headers = (\<lambda>k. if k = ''Authorization'' then Some ''Bearer cron'' else None),
      req_body = []\<rparr>"

text \<open>An invocation in which the insert into \<open>heartbeats\<close> fails.\<close>

definition heartbeat_fault_world :: "int \<Rightarrow> world" where
  "heartbeat_fault_world t =
     (sample_world t)\<lparr>faults := (\<lambda>op. if op = HeartbeatsInsert
                                        then Some ''value out of range for type bigint''
                                        else None)\<rparr>"


definition sample_ctx :: "string \<Rightarrow> ingest_ctx" where
  "sample_ctx b =
     \<lparr>ctx_server = sample_server, ctx_agentId = ''A1'', ctx_orgId = ''O1'',
      ctx_nonce = ''n1'', ctx_bodyText = b\<rparr>"

definition sample_nonce :: nonce_row where
  "sample_nonce =
     \<lparr>nonce_org_id = ''O1'', nonce_agent_id = ''A1'', nonce_value = ''n1'', nonce_ts = 0\<rparr>"

definition bad_request :: request where
  "bad_request = \<lparr>req_method = ''POST'', req_headers = sample_headers, req_body = ''B2''\<rparr>"

definition enroll_request :: request where
  "enroll_request = \<lparr>req_method = ''POST'', req_headers = (\<lambda>k. None), req_body = ''E1''\<rparr>"

text \<open>The deployment before the host has enrolled.\<close>

definition empty_store :: store where
  "empty_store = sample_store\<lparr>servers := []\<rparr>"

text \<open>A second signed request of the host, sent eleven minutes after the first.\<close>

definition late_request :: request where
  "late_request =
     \<lparr>req_method = ''POST'',
      req_headers = (\<lambda>k. if k = ''X-Timestamp'' then Some ''T11''
                         else if k = ''X-Nonce'' then Some ''n2'' else sample_headers k),
      req_body = ''B1''\<rparr>"

text \<open>
  The scenario of the offline alert: two detector runs after eleven minutes of silence,
  the host's next heartbeat, and a third detector run.
\<close>

definition after_first_run :: store where
  "after_first_run = fst (offline_detector sample_lib (sample_world 600001) sample_store cron_request)"

definition after_second_run :: store where
  "after_second_run =
     fst (offline_detector sample_lib (sample_world 600002) after_first_run cron_request)"

definition after_heartbeat :: store where
  "after_heartbeat = fst (ingest sample_lib (sample_world 660000) after_second_run late_request)"

definition after_third_run :: store where
  "after_third_run =
     fst (offline_detector sample_lib (sample_world 700000) after_heartbeat cron_request)"

definition late_ctx :: ingest_ctx where
  "late_ctx =
     \<lparr>ctx_server = sample_server, ctx_agentId = ''A1'', ctx_orgId = ''O1'',
      ctx_nonce = ''n2'', ctx_bodyText = ''B1''\<rparr>"

text \<open>The store after the first request has been ingested.\<close>

definition after_ingest :: store where
  "after_ingest = fst (ingest sample_lib (sample_world 0) sample_store sample_request)"

text \<open>An invocation at instant \<open>t\<close> in which the store operation \<open>op\<close> fails, and no other.\<close>

definition fault_world :: "store_op \<Rightarrow> int \<Rightarrow> world" where
  "fault_world op t =
     (sample_world t)\<lparr>faults := (\<lambda>x. if x = op then Some ''connection reset'' else None)\<rparr>"

text \<open>A later invocation, which draws other random values.\<close>

definition second_world :: "int \<Rightarrow> world" where
  "second_world t =
     (sample_world t)\<lparr>random_uuid := ''A3'',
                       random_secret := (\<lambda>n. if n = 32 then ''K3'' else ''R3''),
                       db_default_id := ''S3''\<rparr>"

text \<open>
  The host enrols while the insert of its server row fails, and enrols again a second
  later.
\<close>

definition first_enrolment :: "store \<times> response" where
  "first_enrolment = enroll sample_lib (fault_world ServersInsert 0) empty_store enroll_request"

definition second_enrolment :: "store \<times> response" where
  "second_enrolment = enroll sample_lib (second_world 1000) (fst first_enrolment) enroll_request"

text \<open>
  Variations of the scenario of the offline alert. After the first run: a second run
  whose query for the open alert fails, and a third run in which nothing fails. A first
  run whose insert of the alert fails. After the second run: a heartbeat whose update of
  the server row fails, then a run; a heartbeat, then a run whose update of the alert
  fails; a heartbeat, then a run more than ten minutes later. And the host, silent since
  instant 0, enrols again at the eleventh minute, before a run.
\<close>

definition after_failed_select :: store where
  "after_failed_select =
     fst (offline_detector sample_lib (fault_world AlertsSelect 600002) after_first_run
            cron_request)"

definition after_next_run :: store where
  "after_next_run =
     fst (offline_detector sample_lib (sample_world 600003) after_failed_select cron_request)"

definition after_failed_insert :: store where
  "after_failed_insert =
     fst (offline_detector sample_lib (fault_world AlertsInsert 600001) sample_store cron_request)"

definition lost_heartbeat :: "store \<times> response" where
  "lost_heartbeat =
     ingest sample_lib (fault_world ServersUpdate 660000) after_second_run late_request"

definition after_lost_heartbeat :: store where
  "after_lost_heartbeat =
     fst (offline_detector sample_lib (sample_world 700000) (fst lost_heartbeat) cron_request)"

definition after_failed_clear :: store where
  "after_failed_clear =
     fst (offline_detector sample_lib (fault_world AlertsUpdate 700000) after_heartbeat
            cron_request)"

definition after_late_run :: store where
  "after_late_run =
     fst (offline_detector sample_lib (sample_world 1260001) after_heartbeat cron_request)"

definition reenrolment :: "store \<times> response" where
  "reenrolment = enroll sample_lib (sample_world 660000) sample_store enroll_request"

definition after_reenrolment :: store where
  "after_reenrolment =
     fst (offline_detector sample_lib (sample_world 700000) (fst reenrolment) cron_request)"

text \<open>A store that holds one nonce, recorded at instant 0.\<close>

definition stale_nonce_store :: store where
  "stale_nonce_store = sample_store\<lparr>api_nonces := [sample_nonce]\<rparr>"

section \<open>Verified properties\<close>

subsection \<open>Facts about the sample deployment\<close>

lemma sample_headers_present:
  "header sample_request ''Authorization'' = Some ''Bearer tok-A1''"
  "header sample_request ''X-Timestamp'' = Some ''T0''"
  "header sample_request ''X-Nonce'' = Some ''n1''"
  "header sample_request ''X-Signature'' = Some ''mac:K1''"
  "req_method sample_request = ''POST''"
  by (simp_all add: header_def sample_request_def sample_headers_def)

subsection \<open>Timestamp freshness\<close>

lemma validateTimestamp_iff:
  "validateTimestamp L W t \<longleftrightarrow>
     (\<exists>ts. date_parse L t = Some ts \<and> \<bar>now W - ts\<bar> \<le> 5 * 60 * 1000)"
  by (auto simp: validateTimestamp_def Let_def field_simps split: option.splits)

text \<open>
  Claim C5. An ingestion request (a POST carrying the four authentication headers) whose
  \<open>X-Timestamp\<close> lies more than five minutes before or after the server's clock is
  answered 401 "Invalid or expired timestamp". The answer and the untouched store do not
  depend on the token, the nonce, the signature, the body, the contents of the store or
  on any store failure: no later verification step takes part.
\<close>

theorem stale_timestamp_rejected:
  assumes "req_method req = ''POST''"
    and "header req ''Authorization'' = Some a"
    and "header req ''X-Timestamp'' = Some t"
    and "header req ''X-Nonce'' = Some n"
    and "header req ''X-Signature'' = Some g"
    and "date_parse L t = Some ts"
    and "ts < now W - 5 * 60 * 1000 \<or> now W + 5 * 60 * 1000 < ts"
  shows "ingest L W s req = (s, errorResponse ''Invalid or expired timestamp'' 401)"
proof -
  have "\<not> validateTimestamp L W t"
    using assms(6,7) by (auto simp: validateTimestamp_iff)
  then have "ingest_verify L W s req = Inl (errorResponse ''Invalid or expired timestamp'' 401)"
    using assms(2-5) by (simp add: ingest_verify_def)
  then show ?thesis using assms(1) by (simp add: ingest_def)
qed

theorem stale_timestamp_rejected_witness:
  "ingest sample_lib (sample_world 300001) sample_store sample_request
     = (sample_store, errorResponse ''Invalid or expired timestamp'' 401)
   \<and> ingest sample_lib (sample_world (- 300001)) sample_store sample_request
     = (sample_store, errorResponse ''Invalid or expired timestamp'' 401)"
  using stale_timestamp_rejected [of sample_request "''Bearer tok-A1''" "''T0''" "''n1''"
      "''mac:K1''" sample_lib 0 "sample_world 300001" sample_store]
    stale_timestamp_rejected [of sample_request "''Bearer tok-A1''" "''T0''" "''n1''"
      "''mac:K1''" sample_lib 0 "sample_world (- 300001)" sample_store]
  by (simp add: sample_headers_present sample_lib_def sample_world_def)

subsection \<open>Responses\<close>

lemma status_jsonResponse [simp]: "status (jsonResponse d st) = st"
  by (simp add: jsonResponse_def)

lemma status_errorResponse [simp]: "status (errorResponse m st) = st"
  by (simp add: errorResponse_def)

lemma status_internalError [simp]: "status (internalError m) = 500"
  by (simp add: internalError_def)

lemma status_validationErrorResponse [simp]: "status (validationErrorResponse e) = 422"
  by (simp add: validationErrorResponse_def)

subsection \<open>Schema validation\<close>


lemma safeParse_ok:
  "fst (zparse L sch [] (Some payload)) = [] \<Longrightarrow>
     safeParse L sch payload = Inr (snd (zparse L sch [] (Some payload)))"
  by (cases "zparse L sch [] (Some payload)") (auto simp: safeParse_def split: list.splits)



lemma show_nat_50: "show_nat 50 = ''50''" by code_simp
lemma show_nat_200: "show_nat 200 = ''200''" by code_simp








lemma errors_at_None [simp]: "errors_at None ks = []"
  by (induction ks) simp_all






lemma ipath_invalid_type [simp]: "ipath (invalid_type p e v) = p"
  by (simp add: invalid_type_def)

lemma ipath_array_too_big [simp]: "ipath (array_too_big p m) = p"
  by (simp add: array_too_big_def)






text \<open>
  The formatted tree of four issues, and the \<open>details\<close> of the sample payload whose CPU
  percentage is 101.
\<close>

lemma format_issues_example:
  "format_issues
     [Issue [Key ''processes''] ''too_big'' ''M1'',
      Issue [Key ''heartbeat'', Key ''ts''] ''invalid_type'' ''Required'',
      Issue [Key ''processes'', Idx 0, Key ''pid''] ''invalid_type'' ''M2'',
      Issue [] ''custom'' ''M3'']
   = JObj
       [(''_errors'', JArr [JStr ''M3'']),
        (''processes'', JObj
           [(''_errors'', JArr [JStr ''M1'']),
            (''0'', JObj
               [(''_errors'', JArr []),
                (''pid'', JObj [(''_errors'', JArr [JStr ''M2''])])])]),
        (''heartbeat'', JObj
           [(''_errors'', JArr []),
            (''ts'', JObj [(''_errors'', JArr [JStr ''Required''])])])]"
  by code_simp

lemma bad_payload_details:
  "format_issues (fst (zparse sample_lib IngestPayloadSchema [] (Some sample_bad_payload)))
   = JObj
       [(''_errors'', JArr []),
        (''heartbeat'', JObj
           [(''_errors'', JArr []),
            (''cpu_pct'', JObj
               [(''_errors'', JArr [JStr ''Number must be less than or equal to 100''])])])]"
  by code_simp

lemma plain_keys_enroll: "plain_keys EnrollRequestSchema"
  by code_simp

lemma array_too_big_50 [simp]:
  "imessage (array_too_big p 50) = ''Array must contain at most 50 element(s)''"
  by (simp add: array_too_big_def show_nat_50)

lemma array_too_big_200 [simp]:
  "imessage (array_too_big p 200) = ''Array must contain at most 200 element(s)''"
  by (simp add: array_too_big_def show_nat_200)



text \<open>
  What the client reads in a validation error: \<open>details\<close> is the formatted tree, and the
  message of every issue of the payload stands in it under \<open>_errors\<close> at the issue's path.
\<close>

lemma validation_details [simp]:
  "jget (Some (body (validationErrorResponse e))) ''details'' = Some e"
  "jget (Some (body (validationErrorResponse e))) ''error'' = Some (JStr ''Validation failed'')"
  by (simp_all add: validationErrorResponse_def jsonResponse_def)


subsection \<open>The nonce and the validation of the payload\<close>

lemma storeNonce_Returns:
  assumes "storeNonce W s orgId agentId nonce = Returns s'"
  shows "s' = s\<lparr>api_nonces := api_nonces s @
                 [\<lparr>nonce_org_id = orgId, nonce_agent_id = agentId, nonce_value = nonce,
                   nonce_ts = now W\<rparr>]\<rparr>"
    and "\<not> (\<exists>r \<in> set (api_nonces s). nonce_matches orgId agentId nonce r)"
  using assms by (auto simp: storeNonce_def split: option.splits if_splits)






subsection \<open>Replay\<close>

lemma api_nonces_write_unchecked:
  "(\<And>t. api_nonces (f t) = api_nonces t) \<Longrightarrow> api_nonces (write_unchecked W op f s) = api_nonces s"
  by (simp add: write_unchecked_def split: option.splits)

lemma servers_write_unchecked:
  "(\<And>t. servers (f t) = servers t) \<Longrightarrow> servers (write_unchecked W op f s) = servers s"
  by (simp add: write_unchecked_def split: option.splits)

lemma api_nonces_ingest_writes: "api_nonces (ingest_writes L W c data s) = api_nonces s"
  by (simp add: ingest_writes_def Let_def api_nonces_write_unchecked update_server_facts_def)

lemma servers_ingest_writes:
  "servers (ingest_writes L W c data s)
     = servers (write_unchecked W ServersUpdate
                  (update_server_facts W (ctx_agentId c) (jget data ''server'')) s)"
  by (simp add: ingest_writes_def Let_def servers_write_unchecked)

lemma ingest_verify_Inl_status:
  "ingest_verify L W s req = Inl r \<Longrightarrow> status r \<in> {400, 401, 403, 409, 500}"
  by (auto simp: ingest_verify_def split: option.splits if_splits outcome.splits sum.splits
      bool.splits prod.splits)

lemma ingest_verify_Inr_D:
  assumes "ingest_verify L W s req = Inr c"
  shows "\<exists>a t g. header req ''Authorization'' = Some a \<and> header req ''X-Timestamp'' = Some t
           \<and> header req ''X-Nonce'' = Some (ctx_nonce c) \<and> header req ''X-Signature'' = Some g
           \<and> validateTimestamp L W t
           \<and> verifyAgentJWT L W (strip_bearer L a) = Returns (ctx_agentId c, ctx_orgId c)
           \<and> createServiceClient W = Returns ()
           \<and> getServerByAgentId W s (ctx_agentId c) = Returns (Some (ctx_server c))
           \<and> srv_org_id (ctx_server c) = ctx_orgId c
           \<and> isNonceUsed W s (ctx_orgId c) (ctx_agentId c) (ctx_nonce c) = Returns False"
  using assms
  by (auto simp: ingest_verify_def split: option.splits if_splits outcome.splits sum.splits
      bool.splits prod.splits)


lemma single_map: "single (map f xs) = map_option f (single xs)"
  by (cases xs rule: single.cases) simp_all

lemma filter_agent_update:
  "filter (\<lambda>r. srv_agent_id r = a) (servers (update_server_facts W a' facts s))
     = map (\<lambda>r. if srv_agent_id r = a'
                  then r\<lparr>srv_cols := set_cols (server_fact_cols facts) (srv_cols r),
                         srv_last_seen := Some (now W)\<rparr>
                  else r)
         (filter (\<lambda>r. srv_agent_id r = a) (servers s))"
  by (simp add: update_server_facts_def filter_map comp_def if_distrib [of srv_agent_id] cong: if_cong)

text \<open>The commit phase keeps every server row findable under its agent id, in its organisation.\<close>

lemma server_kept_by_writes:
  assumes "single (filter (\<lambda>r. srv_agent_id r = a) (servers s)) = Some srv"
  shows "\<exists>srv'. single (filter (\<lambda>r. srv_agent_id r = a) (servers (ingest_writes L W c data s)))
                   = Some srv' \<and> srv_org_id srv' = srv_org_id srv"
proof -
  have "servers (ingest_writes L W c data s) = servers s
        \<or> servers (ingest_writes L W c data s)
            = servers (update_server_facts W (ctx_agentId c) (jget data ''server'') s)"
    unfolding servers_ingest_writes by (simp add: write_unchecked_def split: option.splits)
  then show ?thesis
  proof
    assume "servers (ingest_writes L W c data s) = servers s"
    then show ?thesis using assms by simp
  next
    assume "servers (ingest_writes L W c data s)
            = servers (update_server_facts W (ctx_agentId c) (jget data ''server'') s)"
    then show ?thesis using assms by (simp add: filter_agent_update single_map)
  qed
qed

text \<open>Once stored, the nonce is found by the replay check.\<close>

lemma stored_nonce_found:
  assumes "storeNonce W s orgId agentId nonce = Returns s'"
  shows "single (filter (nonce_matches orgId agentId nonce) (api_nonces s')) \<noteq> None"
proof -
  have "filter (nonce_matches orgId agentId nonce) (api_nonces s) = []"
    using storeNonce_Returns(2) [OF assms] by (simp add: filter_empty_conv)
  then show ?thesis
    using storeNonce_Returns(1) [OF assms] by (simp add: nonce_matches_def)
qed

text \<open>
  What the handler leaves behind when it answers 200 or 422: the request had passed
  verification, its nonce is in the store, and the host's server row is still there.
\<close>

lemma ingest_answered:
  assumes "req_method req = ''POST''"
    and "ingest L W s req = (s1, r1)"
    and "status r1 = 200 \<or> status r1 = 422"
  shows "\<exists>c. ingest_verify L W s req = Inr c
           \<and> single (filter (nonce_matches (ctx_orgId c) (ctx_agentId c) (ctx_nonce c))
                (api_nonces s1)) \<noteq> None
           \<and> (\<exists>srv'. single (filter (\<lambda>r. srv_agent_id r = ctx_agentId c) (servers s1)) = Some srv'
                  \<and> srv_org_id srv' = ctx_orgId c)
           \<and> (status r1 = 422 \<longrightarrow>
                 storeNonce W s (ctx_orgId c) (ctx_agentId c) (ctx_nonce c) = Returns s1)"
proof (cases "ingest_verify L W s req")
  case (Inl r)
  then have "ingest L W s req = (s, r)" using assms(1) by (simp add: ingest_def)
  then have "status r1 \<in> {400, 401, 403, 409, 500}"
    using ingest_verify_Inl_status [OF Inl] assms(2) by simp
  then show ?thesis using assms(3) by auto
next
  case (Inr c)
  note v = ingest_verify_Inr_D [OF Inr]
  show ?thesis
  proof (cases "storeNonce W s (ctx_orgId c) (ctx_agentId c) (ctx_nonce c)")
    case (Throws m)
    then have "r1 = internalError m"
      using assms(1,2) Inr by (simp add: ingest_def)
    then show ?thesis using assms(3) by simp
  next
    case (Returns s')
    have n: "single (filter (nonce_matches (ctx_orgId c) (ctx_agentId c) (ctx_nonce c))
                (api_nonces s')) \<noteq> None"
      using stored_nonce_found [OF Returns] .
    have srv: "single (filter (\<lambda>r. srv_agent_id r = ctx_agentId c) (servers s'))
                 = Some (ctx_server c)"
      using v storeNonce_Returns(1) [OF Returns]
      by (auto simp: getServerByAgentId_def split: option.splits)
    have org: "srv_org_id (ctx_server c) = ctx_orgId c" using v by blast
    have i: "ingest_commit L W c s' = (s1, r1)"
      using assms(1,2) Inr Returns by (simp add: ingest_def)
    have "s1 = s' \<or> (\<exists>data. s1 = ingest_writes L W c data s' \<and> status r1 = 200)"
      using i by (auto simp: ingest_commit_def split: sum.splits)
    then show ?thesis
    proof
      assume "s1 = s'"
      then show ?thesis using Inr n srv org Returns by simp
    next
      assume "\<exists>data. s1 = ingest_writes L W c data s' \<and> status r1 = 200"
      then obtain data where s1: "s1 = ingest_writes L W c data s'" and "status r1 = 200"
        by blast
      then show ?thesis
        using Inr n org server_kept_by_writes [OF srv, of L W c data]
        by (simp add: api_nonces_ingest_writes)
    qed
  qed
qed

text \<open>A request for the same host under a nonce already in the store.\<close>

lemma used_nonce_replay:
  assumes "req_method req = ''POST''"
    and "header req ''Authorization'' = Some a"
    and "header req ''X-Timestamp'' = Some t"
    and "header req ''X-Nonce'' = Some n"
    and "header req ''X-Signature'' = Some g"
    and "validateTimestamp L W t"
    and "verifyAgentJWT L W (strip_bearer L a) = Returns (agentId, orgId)"
    and "createServiceClient W = Returns ()"
    and "faults W ServersSelect = None" and "faults W NoncesSelect = None"
    and "single (filter (\<lambda>r. srv_agent_id r = agentId) (servers s)) = Some srv"
    and "srv_org_id srv = orgId"
    and "single (filter (nonce_matches orgId agentId n) (api_nonces s)) \<noteq> None"
  shows "ingest L W s req = (s, errorResponse ''Nonce already used (replay detected)'' 409)"
proof -
  have "ingest_verify L W s req = Inl (errorResponse ''Nonce already used (replay detected)'' 409)"
    using assms(2-13) by (simp add: ingest_verify_def getServerByAgentId_def isNonceUsed_def)
  then show ?thesis using assms(1) by (simp add: ingest_def)
qed

lemma used_nonce_never_accepted:
  assumes "header req ''Authorization'' = Some a"
    and "header req ''X-Nonce'' = Some n"
    and "\<And>ids. verifyAgentJWT L W (strip_bearer L a) = Returns ids \<Longrightarrow> ids = (agentId, orgId)"
    and "single (filter (nonce_matches orgId agentId n) (api_nonces s)) \<noteq> None"
  shows "fst (ingest L W s req) = s \<and> status (snd (ingest L W s req)) \<noteq> 200"
proof -
  have "\<exists>r. ingest_verify L W s req = Inl r"
  proof (cases "ingest_verify L W s req")
    case (Inl r) then show ?thesis by simp
  next
    case (Inr c)
    note v = ingest_verify_Inr_D [OF Inr]
    then have "(ctx_agentId c, ctx_orgId c) = (agentId, orgId)" and "ctx_nonce c = n"
      using assms(1,2,3) by auto
    then have "isNonceUsed W s orgId agentId n = Returns False" using v by auto
    then show ?thesis using assms(4) by (simp add: isNonceUsed_def split: option.splits)
  qed
  then obtain r where r: "ingest_verify L W s req = Inl r" by blast
  have "status r \<noteq> 200" using ingest_verify_Inl_status [OF r] by auto
  then show ?thesis using r by (simp add: ingest_def handleCORS_def)
qed

lemma verifyAgentJWT_same_env:
  assumes "denv W2 = denv W1"
    and "verifyAgentJWT L W1 token = Returns ids"
    and "verifyAgentJWT L W2 token = Returns ids'"
  shows "ids' = ids"
  using assms
  by (auto simp: verifyAgentJWT_def JWT_SECRET_def split: if_splits sum.splits option.splits)


lemma createServiceClient_same_env:
  "denv W2 = denv W1 \<Longrightarrow> createServiceClient W2 = createServiceClient W1"
  by (simp add: createServiceClient_def env_set_def)

text \<open>
  Claim C2. Once a request has been accepted (200), the identical request submitted again
  to the same deployment is never accepted and leaves the store as it is, so no second
  telemetry row is inserted. As long as the request is within its replay window (its
  timestamp still fresh and its token still valid at the second submission, which is
  what lets it reach the replay check) and the two store reads succeed, the answer is
  409 "Nonce already used (replay detected)".
\<close>

theorem accepted_request_replay_rejected:
  assumes "req_method req = ''POST''"
    and "ingest L W1 s req = (s1, r1)"
    and "status r1 = 200"
    and "denv W2 = denv W1"
  shows "fst (ingest L W2 s1 req) = s1 \<and> status (snd (ingest L W2 s1 req)) \<noteq> 200
       \<and> (within_replay_window L W2 req
            \<and> faults W2 ServersSelect = None \<and> faults W2 NoncesSelect = None
          \<longrightarrow> ingest L W2 s1 req
                = (s1, errorResponse ''Nonce already used (replay detected)'' 409))"
proof -
  obtain c srv' where c: "ingest_verify L W1 s req = Inr c"
    and n: "single (filter (nonce_matches (ctx_orgId c) (ctx_agentId c) (ctx_nonce c))
                (api_nonces s1)) \<noteq> None"
    and srv: "single (filter (\<lambda>r. srv_agent_id r = ctx_agentId c) (servers s1)) = Some srv'"
    and org: "srv_org_id srv' = ctx_orgId c"
    using ingest_answered [OF assms(1,2)] assms(3) by auto
  obtain a t g where h: "header req ''Authorization'' = Some a"
      "header req ''X-Timestamp'' = Some t"
      "header req ''X-Nonce'' = Some (ctx_nonce c)" "header req ''X-Signature'' = Some g"
    and jwt: "verifyAgentJWT L W1 (strip_bearer L a) = Returns (ctx_agentId c, ctx_orgId c)"
    and cl: "createServiceClient W1 = Returns ()"
    using ingest_verify_Inr_D [OF c] by blast
  have same: "\<And>ids. verifyAgentJWT L W2 (strip_bearer L a) = Returns ids
                 \<Longrightarrow> ids = (ctx_agentId c, ctx_orgId c)"
    using verifyAgentJWT_same_env [OF assms(4) jwt] .
  have 1: "fst (ingest L W2 s1 req) = s1 \<and> status (snd (ingest L W2 s1 req)) \<noteq> 200"
    using used_nonce_never_accepted [OF h(1) h(3) same n] by simp
  have 2: "ingest L W2 s1 req = (s1, errorResponse ''Nonce already used (replay detected)'' 409)"
    if w: "within_replay_window L W2 req"
      and f: "faults W2 ServersSelect = None" "faults W2 NoncesSelect = None"
  proof -
    have ts: "validateTimestamp L W2 t"
      using w h by (simp add: within_replay_window_def)
    obtain ids where "verifyAgentJWT L W2 (strip_bearer L a) = Returns ids"
      using w h by (auto simp: within_replay_window_def split: outcome.splits)
    then have j2: "verifyAgentJWT L W2 (strip_bearer L a) = Returns (ctx_agentId c, ctx_orgId c)"
      using same by simp
    have c2: "createServiceClient W2 = Returns ()"
      using cl createServiceClient_same_env [OF assms(4)] by simp
    show ?thesis
      using used_nonce_replay [OF assms(1) h ts j2 c2 f srv org n] .
  qed
  show ?thesis using 1 2 by blast
qed

lemma sample_world_no_faults: "faults (sample_world t) op = None"
  by (simp add: sample_world_def)

lemma sample_world_env: "denv (sample_world t) = sample_env"
  by (simp add: sample_world_def)

lemma sample_request_accepted:
  "status (snd (ingest sample_lib (sample_world 0) sample_store sample_request)) = 200"
  by code_simp

lemma sample_request_still_fresh:
  "within_replay_window sample_lib (sample_world 1000) sample_request"
  by code_simp

theorem accepted_request_replay_rejected_witness:
  "status (snd (ingest sample_lib (sample_world 0) sample_store sample_request)) = 200
   \<and> ingest sample_lib (sample_world 1000)
        (fst (ingest sample_lib (sample_world 0) sample_store sample_request)) sample_request
      = (fst (ingest sample_lib (sample_world 0) sample_store sample_request),
         errorResponse ''Nonce already used (replay detected)'' 409)"
proof -
  have i: "ingest sample_lib (sample_world 0) sample_store sample_request
             = (fst (ingest sample_lib (sample_world 0) sample_store sample_request),
                snd (ingest sample_lib (sample_world 0) sample_store sample_request))"
    by simp
  have e: "denv (sample_world 1000) = denv (sample_world 0)"
    by (simp add: sample_world_env)
  show ?thesis
    using accepted_request_replay_rejected
            [OF sample_headers_present(5) i sample_request_accepted e]
      sample_request_accepted sample_request_still_fresh sample_world_no_faults
    by blast
qed

text \<open>
  Claim C10. The nonce is stored before the payload is validated: when a request is
  answered 422, the store it leaves is the one returned by \<open>storeNonce\<close>. Any later
  request of the same host (same token) under the same nonce, whatever its body,
  timestamp and signature, is never accepted and changes nothing; when it is otherwise
  in order (a POST with a signature header, within its replay window, the store reads
  succeeding) the answer is 409.
\<close>

theorem validation_failure_consumes_nonce:
  assumes "req_method req1 = ''POST''"
    and "ingest L W1 s req1 = (s1, r1)"
    and "status r1 = 422"
    and "header req2 ''Authorization'' = header req1 ''Authorization''"
    and "header req2 ''X-Nonce'' = header req1 ''X-Nonce''"
    and "denv W2 = denv W1"
  shows "(\<exists>c. ingest_verify L W1 s req1 = Inr c
            \<and> storeNonce W1 s (ctx_orgId c) (ctx_agentId c) (ctx_nonce c) = Returns s1)
       \<and> fst (ingest L W2 s1 req2) = s1 \<and> status (snd (ingest L W2 s1 req2)) \<noteq> 200
       \<and> (req_method req2 = ''POST'' \<and> header req2 ''X-Signature'' \<noteq> None
            \<and> within_replay_window L W2 req2
            \<and> faults W2 ServersSelect = None \<and> faults W2 NoncesSelect = None
          \<longrightarrow> ingest L W2 s1 req2
                = (s1, errorResponse ''Nonce already used (replay detected)'' 409))"
proof -
  obtain c srv' where c: "ingest_verify L W1 s req1 = Inr c"
    and n: "single (filter (nonce_matches (ctx_orgId c) (ctx_agentId c) (ctx_nonce c))
                (api_nonces s1)) \<noteq> None"
    and srv: "single (filter (\<lambda>r. srv_agent_id r = ctx_agentId c) (servers s1)) = Some srv'"
    and org: "srv_org_id srv' = ctx_orgId c"
    and st: "storeNonce W1 s (ctx_orgId c) (ctx_agentId c) (ctx_nonce c) = Returns s1"
    using ingest_answered [OF assms(1,2)] assms(3) by auto
  obtain a where h1: "header req1 ''Authorization'' = Some a"
      "header req1 ''X-Nonce'' = Some (ctx_nonce c)"
    and jwt: "verifyAgentJWT L W1 (strip_bearer L a) = Returns (ctx_agentId c, ctx_orgId c)"
    and cl: "createServiceClient W1 = Returns ()"
    using ingest_verify_Inr_D [OF c] by blast
  have h: "header req2 ''Authorization'' = Some a" "header req2 ''X-Nonce'' = Some (ctx_nonce c)"
    using h1 assms(4,5) by simp_all
  have same: "\<And>ids. verifyAgentJWT L W2 (strip_bearer L a) = Returns ids
                 \<Longrightarrow> ids = (ctx_agentId c, ctx_orgId c)"
    using verifyAgentJWT_same_env [OF assms(6) jwt] .
  have 1: "fst (ingest L W2 s1 req2) = s1 \<and> status (snd (ingest L W2 s1 req2)) \<noteq> 200"
    using used_nonce_never_accepted [OF h same n] by simp
  have 2: "ingest L W2 s1 req2 = (s1, errorResponse ''Nonce already used (replay detected)'' 409)"
    if m: "req_method req2 = ''POST''" and sg: "header req2 ''X-Signature'' \<noteq> None"
      and w: "within_replay_window L W2 req2"
      and f: "faults W2 ServersSelect = None" "faults W2 NoncesSelect = None"
  proof -
    obtain g where g: "header req2 ''X-Signature'' = Some g" using sg by blast
    obtain t where t: "header req2 ''X-Timestamp'' = Some t"
      using w h by (auto simp: within_replay_window_def split: option.splits)
    have ts: "validateTimestamp L W2 t"
      using w h t by (simp add: within_replay_window_def)
    obtain ids where "verifyAgentJWT L W2 (strip_bearer L a) = Returns ids"
      using w h t by (auto simp: within_replay_window_def split: outcome.splits)
    then have j2: "verifyAgentJWT L W2 (strip_bearer L a) = Returns (ctx_agentId c, ctx_orgId c)"
      using same by simp
    have c2: "createServiceClient W2 = Returns ()"
      using cl createServiceClient_same_env [OF assms(6)] by simp
    show ?thesis
      using used_nonce_replay [OF m h(1) t h(2) g ts j2 c2 f srv org n] .
  qed
  show ?thesis using c st 1 2 by blast
qed

lemma bad_request_rejected:
  "status (snd (ingest sample_lib (sample_world 0) sample_store bad_request)) = 422"
  by code_simp

theorem validation_failure_consumes_nonce_witness:
  "status (snd (ingest sample_lib (sample_world 0) sample_store bad_request)) = 422
   \<and> ingest sample_lib (sample_world 1000)
        (fst (ingest sample_lib (sample_world 0) sample_store bad_request)) sample_request
      = (fst (ingest sample_lib (sample_world 0) sample_store bad_request),
         errorResponse ''Nonce already used (replay detected)'' 409)"
proof -
  have m: "req_method bad_request = ''POST''"
    by (simp add: bad_request_def)
  have i: "ingest sample_lib (sample_world 0) sample_store bad_request
             = (fst (ingest sample_lib (sample_world 0) sample_store bad_request),
                snd (ingest sample_lib (sample_world 0) sample_store bad_request))"
    by simp
  have a: "header sample_request ''Authorization'' = header bad_request ''Authorization''"
    by (simp add: header_def sample_request_def bad_request_def)
  have n: "header sample_request ''X-Nonce'' = header bad_request ''X-Nonce''"
    by (simp add: header_def sample_request_def bad_request_def)
  have e: "denv (sample_world 1000) = denv (sample_world 0)"
    by (simp add: sample_world_env)
  have g: "header sample_request ''X-Signature'' \<noteq> None"
    by (simp add: sample_headers_present)
  show ?thesis
    using validation_failure_consumes_nonce [OF m i bad_request_rejected a n e]
      bad_request_rejected sample_request_still_fresh g sample_headers_present(5)
      sample_world_no_faults
    by blast
qed

subsection \<open>The commit phase is not atomic\<close>

text \<open>
  Claim C1 does not hold of the handler. The writes of the commit phase are separate
  requests to the store whose results are discarded; there is no transaction. On the
  sample request, when the insert into \<open>heartbeats\<close> fails the handler still answers 200,
  the server row has been updated and the disk row inserted, and the heartbeat is
  missing: part of the batch is visible.
\<close>

theorem partial_commit_visible:
  "status (snd (ingest sample_lib (heartbeat_fault_world 0) sample_store sample_request)) = 200
   \<and> heartbeats (fst (ingest sample_lib (heartbeat_fault_world 0) sample_store sample_request)) = []
   \<and> disks (fst (ingest sample_lib (heartbeat_fault_world 0) sample_store sample_request)) \<noteq> []
   \<and> servers (fst (ingest sample_lib (heartbeat_fault_world 0) sample_store sample_request))
        \<noteq> servers sample_store"
  by code_simp



subsection \<open>Enrolment\<close>

lemma filter_host_update:
  "filter (\<lambda>r. srv_org_id r = org \<and> srv_machine_id r = mid)
       (servers (update_server_facts W a' facts s))
     = map (\<lambda>r. if srv_agent_id r = a'
                  then r\<lparr>srv_cols := set_cols (server_fact_cols facts) (srv_cols r),
                         srv_last_seen := Some (now W)\<rparr>
                  else r)
         (filter (\<lambda>r. srv_org_id r = org \<and> srv_machine_id r = mid) (servers s))"
proof -
  have "\<And>xs. filter (\<lambda>r. srv_org_id r = org \<and> srv_machine_id r = mid)
       (map (\<lambda>r. if srv_agent_id r = a'
                  then r\<lparr>srv_cols := set_cols (server_fact_cols facts) (srv_cols r),
                         srv_last_seen := Some (now W)\<rparr>
                  else r) xs)
     = map (\<lambda>r. if srv_agent_id r = a'
                  then r\<lparr>srv_cols := set_cols (server_fact_cols facts) (srv_cols r),
                         srv_last_seen := Some (now W)\<rparr>
                  else r)
         (filter (\<lambda>r. srv_org_id r = org \<and> srv_machine_id r = mid) xs)"
    subgoal for xs by (induction xs) auto
    done
  then show ?thesis by (simp add: update_server_facts_def)
qed

lemma unique_hosts_filter:
  assumes "unique_hosts s"
  shows "length (filter (\<lambda>r. srv_org_id r = org \<and> srv_machine_id r = mid) (servers s)) \<le> 1"
proof -
  have "\<And>xs. distinct (map (\<lambda>r. (srv_org_id r, srv_machine_id r)) xs) \<Longrightarrow>
      length (filter (\<lambda>r. srv_org_id r = org \<and> srv_machine_id r = mid) xs) \<le> 1"
    subgoal for xs
    proof (induction xs)
      case Nil then show ?case by simp
    next
      case (Cons x xs)
      show ?case
      proof (cases "srv_org_id x = org \<and> srv_machine_id x = mid")
        case True
        then have "(org, mid) \<notin> set (map (\<lambda>r. (srv_org_id r, srv_machine_id r)) xs)"
          using Cons.prems by auto
        then have "filter (\<lambda>r. srv_org_id r = org \<and> srv_machine_id r = mid) xs = []"
          by (auto simp: filter_empty_conv)
        then show ?thesis using True by simp
      next
        case False
        then show ?thesis using Cons by auto
      qed
    qed
    done
  then show ?thesis using assms by (simp add: unique_hosts_def)
qed

lemma single_None_short: "single xs = None \<Longrightarrow> length xs \<le> 1 \<Longrightarrow> xs = []"
  by (cases xs rule: single.cases) simp_all

text \<open>Two enrolments of the same host in a row, at the level of the store.\<close>

lemma enroll_store_twice:
  assumes u: "unique_hosts s"
    and f1: "faults W1 ServersSelect = None" "faults W1 ServersInsert = None"
    and fr: "fresh_ids W1 s"
    and f2: "faults W2 ServersSelect = None"
    and mid: "jget facts2 ''machine_id'' = jget facts1 ''machine_id''"
    and e1: "enroll_store W1 s org facts1 = (s1, creds1)"
    and e2: "enroll_store W2 s1 org facts2 = (s2, creds2)"
  shows "creds2 = creds1 \<and> length (servers s2) = length (servers s1)
       \<and> map srv_hmac_secret (servers s2) = map srv_hmac_secret (servers s1)"
proof -
  let ?P = "\<lambda>r. srv_org_id r = org \<and> srv_machine_id r = jstr (jget facts1 ''machine_id'')"
  have found: "\<exists>e. single (filter ?P (servers s1)) = Some e
      \<and> creds1 = (srv_agent_id e, srv_hmac_secret e, srv_refresh_token e)"
  proof (cases "single (filter ?P (servers s))")
    case None
    then have empty: "filter ?P (servers s) = []"
      using single_None_short unique_hosts_filter [OF u] by blast
    let ?new = "\<lparr>srv_id = db_default_id W1, srv_org_id = org, srv_agent_id = random_uuid W1,
                     srv_machine_id = jstr (jget facts1 ''machine_id''),
                     srv_cols = server_fact_cols facts1,
                     srv_hmac_secret = generateSecret W1 32,
                     srv_refresh_token = generateSecret W1 64,
                     srv_first_seen = Some (now W1), srv_last_seen = Some (now W1)\<rparr>"
    have nc: "\<not> server_conflict ?new s"
      using fr empty by (auto simp: server_conflict_def fresh_ids_def filter_empty_conv)
    have "s1 = s\<lparr>servers := servers s @ [?new]\<rparr>"
      and "creds1 = (random_uuid W1, generateSecret W1 32, generateSecret W1 64)"
      using e1 None f1 nc
      by (auto simp: enroll_store_def existing_server_def Let_def write_unchecked_def
          insert_server_def)
    then show ?thesis using empty by simp
  next
    case (Some e)
    then have c: "creds1 = (srv_agent_id e, srv_hmac_secret e, srv_refresh_token e)"
      and s1: "s1 = write_unchecked W1 ServersUpdate
                 (update_server_facts W1 (srv_agent_id e) facts1) s"
      using e1 f1 by (auto simp: enroll_store_def existing_server_def)
    have "servers s1 = servers s
          \<or> servers s1 = servers (update_server_facts W1 (srv_agent_id e) facts1 s)"
      using s1 by (simp add: write_unchecked_def split: option.splits)
    then show ?thesis
    proof
      assume "servers s1 = servers s"
      then show ?thesis using Some c by simp
    next
      assume "servers s1 = servers (update_server_facts W1 (srv_agent_id e) facts1 s)"
      then show ?thesis using Some c by (simp add: filter_host_update single_map)
    qed
  qed
  then obtain e where e: "single (filter ?P (servers s1)) = Some e"
    and c1: "creds1 = (srv_agent_id e, srv_hmac_secret e, srv_refresh_token e)"
    by blast
  have ex: "existing_server W2 s1 org (jstr (jget facts2 ''machine_id'')) = Some e"
    using e f2 mid by (simp add: existing_server_def)
  then have c2: "creds2 = (srv_agent_id e, srv_hmac_secret e, srv_refresh_token e)"
    and s2: "s2 = write_unchecked W2 ServersUpdate
                 (update_server_facts W2 (srv_agent_id e) facts2) s1"
    using e2 by (auto simp: enroll_store_def)
  have "servers s2 = servers s1
        \<or> servers s2 = servers (update_server_facts W2 (srv_agent_id e) facts2 s1)"
    using s2 by (simp add: write_unchecked_def split: option.splits)
  then have "length (servers s2) = length (servers s1)
       \<and> map srv_hmac_secret (servers s2) = map srv_hmac_secret (servers s1)"
    by (auto simp: update_server_facts_def comp_def)
  then show ?thesis using c1 c2 by simp
qed


lemma orgs_enroll_store: "orgs (fst (enroll_store W s org facts)) = orgs s"
  by (auto simp: enroll_store_def Let_def write_unchecked_def update_server_facts_def
      insert_server_def split: option.splits)

lemma enroll_parse_Inl_status: "enroll_parse L req = Inl r \<Longrightarrow> status r \<noteq> 200"
  by (auto simp: enroll_parse_def split: sum.splits)

lemma enroll_200_D:
  assumes "enroll L W s req = (s1, r1)" and "status r1 = 200"
    and "enroll_parse L req = Inr (secret, facts)"
  shows "\<exists>org a h rt jwt.
           getOrgBySecretHash W s (hashSecret L secret) = Returns (Some org)
         \<and> enroll_store W s (org_id org) facts = (s1, a, h, rt)
         \<and> createAgentJWT L W a (org_id org) = Returns jwt
         \<and> body r1 = JObj [(''agent_id'', JStr a), (''agent_jwt'', JStr jwt),
                          (''refresh_token'', JStr rt), (''hmac_secret'', JStr h),
                          (''org_id'', JStr (org_id org))]"
  using assms
  by (auto simp: enroll_def handleCORS_def jsonResponse_def
      split: if_splits outcome.splits option.splits prod.splits)

text \<open>
  When the first enrolment has stored its server row, a later successful enrolment with
  the same tenant secret and the same machine id returns the agent id and the signing
  secret of the first, adds no server row and leaves every stored signing secret as it
  is. The store is taken to satisfy its unique index on (org_id, machine_id) and to
  answer the first call's read and insert and the second call's read; the identifiers
  drawn for a new row are taken not to be in use.
\<close>

lemma stored_enrolment_is_reused:
  assumes "enroll_parse L req1 = Inr (secret, facts1)"
    and "enroll_parse L req2 = Inr (secret, facts2)"
    and "jget facts2 ''machine_id'' = jget facts1 ''machine_id''"
    and "enroll L W1 s req1 = (s1, r1)" and "status r1 = 200"
    and "enroll L W2 s1 req2 = (s2, r2)" and "status r2 = 200"
    and "unique_hosts s" and "fresh_ids W1 s"
    and "faults W1 ServersSelect = None" and "faults W1 ServersInsert = None"
    and "faults W2 ServersSelect = None"
  shows "jget (Some (body r1)) ''agent_id'' \<noteq> None
       \<and> jget (Some (body r2)) ''agent_id'' = jget (Some (body r1)) ''agent_id''
       \<and> jget (Some (body r1)) ''hmac_secret'' \<noteq> None
       \<and> jget (Some (body r2)) ''hmac_secret'' = jget (Some (body r1)) ''hmac_secret''
       \<and> length (servers s2) = length (servers s1)
       \<and> map srv_hmac_secret (servers s2) = map srv_hmac_secret (servers s1)"
proof -
  obtain org1 a1 h1 rt1 jwt1 where
      o1: "getOrgBySecretHash W1 s (hashSecret L secret) = Returns (Some org1)"
    and e1: "enroll_store W1 s (org_id org1) facts1 = (s1, a1, h1, rt1)"
    and b1: "body r1 = JObj [(''agent_id'', JStr a1), (''agent_jwt'', JStr jwt1),
                          (''refresh_token'', JStr rt1), (''hmac_secret'', JStr h1),
                          (''org_id'', JStr (org_id org1))]"
    using enroll_200_D [OF assms(4,5,1)] by blast
  obtain org2 a2 h2 rt2 jwt2 where
      o2: "getOrgBySecretHash W2 s1 (hashSecret L secret) = Returns (Some org2)"
    and e2: "enroll_store W2 s1 (org_id org2) facts2 = (s2, a2, h2, rt2)"
    and b2: "body r2 = JObj [(''agent_id'', JStr a2), (''agent_jwt'', JStr jwt2),
                          (''refresh_token'', JStr rt2), (''hmac_secret'', JStr h2),
                          (''org_id'', JStr (org_id org2))]"
    using enroll_200_D [OF assms(6,7,2)] by blast
  have "orgs s1 = orgs s"
    using orgs_enroll_store [of W1 s "org_id org1" facts1] e1 by simp
  then have "org2 = org1"
    using o1 o2 by (auto simp: getOrgBySecretHash_def split: option.splits)
  then have e2': "enroll_store W2 s1 (org_id org1) facts2 = (s2, a2, h2, rt2)"
    using e2 by simp
  have "(a2, h2, rt2) = (a1, h1, rt1) \<and> length (servers s2) = length (servers s1)
       \<and> map srv_hmac_secret (servers s2) = map srv_hmac_secret (servers s1)"
    using enroll_store_twice [OF assms(8,10,11,9,12,3) e1 e2'] .
  then show ?thesis using b1 b2 by simp
qed

lemma enroll_request_parsed:
  "enroll_parse sample_lib enroll_request
     = Inr (''0123456789abcdef0123456789abcdef'',
            snd (zparse sample_lib (omit [''agent_id''] ServerIdentitySchema) [Key ''host_facts'']
                   (Some (JObj sample_facts))))"
  by code_simp

lemma enroll_request_enrolled:
  "status (snd (enroll sample_lib (sample_world 0) empty_store enroll_request)) = 200"
  by code_simp

lemma enroll_request_enrolled_again:
  "status (snd (enroll sample_lib (sample_world 1000)
     (fst (enroll sample_lib (sample_world 0) empty_store enroll_request)) enroll_request)) = 200"
  by code_simp

lemma empty_store_ok: "unique_hosts empty_store" "fresh_ids (sample_world 0) empty_store"
  by (simp_all add: unique_hosts_def fresh_ids_def empty_store_def)

lemma stored_enrolment_is_reused_example:
  "jget (Some (body (snd (enroll sample_lib (sample_world 0) empty_store enroll_request))))
      ''agent_id'' \<noteq> None
   \<and> jget (Some (body (snd (enroll sample_lib (sample_world 1000)
        (fst (enroll sample_lib (sample_world 0) empty_store enroll_request)) enroll_request))))
      ''agent_id''
     = jget (Some (body (snd (enroll sample_lib (sample_world 0) empty_store enroll_request))))
      ''agent_id''
   \<and> jget (Some (body (snd (enroll sample_lib (sample_world 1000)
        (fst (enroll sample_lib (sample_world 0) empty_store enroll_request)) enroll_request))))
      ''hmac_secret''
     = jget (Some (body (snd (enroll sample_lib (sample_world 0) empty_store enroll_request))))
      ''hmac_secret''"
proof -
  have i1: "enroll sample_lib (sample_world 0) empty_store enroll_request
      = (fst (enroll sample_lib (sample_world 0) empty_store enroll_request),
         snd (enroll sample_lib (sample_world 0) empty_store enroll_request))"
    by simp
  have i2: "enroll sample_lib (sample_world 1000)
        (fst (enroll sample_lib (sample_world 0) empty_store enroll_request)) enroll_request
      = (fst (enroll sample_lib (sample_world 1000)
           (fst (enroll sample_lib (sample_world 0) empty_store enroll_request)) enroll_request),
         snd (enroll sample_lib (sample_world 1000)
           (fst (enroll sample_lib (sample_world 0) empty_store enroll_request)) enroll_request))"
    by simp
  show ?thesis
    using stored_enrolment_is_reused [OF enroll_request_parsed enroll_request_parsed refl
        i1 enroll_request_enrolled i2 enroll_request_enrolled_again empty_store_ok
        sample_world_no_faults sample_world_no_faults sample_world_no_faults]
    by blast
qed

text \<open>
  Claim C4 fails on the code. The handler means enrolment to be idempotent (its
  existence check is commented "idempotent enrollment", its first branch
  "Re-enrollment: return existing credentials"), but it never looks at the result of
  the insert of a new server row. When that insert fails, the call is still answered
  200 and hands out an agent id and a signing secret that no row holds; the next valid
  enrolment of the same host for the same tenant finds no row, draws other values and is
  answered 200 as well. Here the first call returns \<open>A2\<close> and \<open>K2\<close> and stores nothing, the
  second returns \<open>A3\<close> and \<open>K3\<close>.
\<close>

theorem failed_insert_breaks_reenrollment:
  "status (snd first_enrolment) = 200
   \<and> jget (Some (body (snd first_enrolment))) ''agent_id'' = Some (JStr ''A2'')
   \<and> jget (Some (body (snd first_enrolment))) ''hmac_secret'' = Some (JStr ''K2'')
   \<and> servers (fst first_enrolment) = []
   \<and> status (snd second_enrolment) = 200
   \<and> jget (Some (body (snd second_enrolment))) ''agent_id'' = Some (JStr ''A3'')
   \<and> jget (Some (body (snd second_enrolment))) ''hmac_secret'' = Some (JStr ''K3'')
   \<and> map srv_agent_id (servers (fst second_enrolment)) = [''A3'']
   \<and> map srv_hmac_secret (servers (fst second_enrolment)) = [''K3'']"
  by code_simp

subsection \<open>Offline alerts\<close>

lemma single_Some_length: "single xs = Some e \<Longrightarrow> xs = [e]"
  by (cases xs rule: single.cases) simp_all

lemma one_open_per_host_iff:
  "one_open_per_host as \<longleftrightarrow> (\<forall>sid. open_offline_count sid as \<le> 1)"
proof
  assume a: "one_open_per_host as"
  show "\<forall>sid. open_offline_count sid as \<le> 1"
  proof
    fix sid
    show "open_offline_count sid as \<le> 1"
    proof (cases "filter (is_open_offline sid) as")
      case Nil
      then show ?thesis by (simp add: open_offline_count_def)
    next
      case (Cons x xs)
      then have "x \<in> set (filter (is_open_offline sid) as)" by simp
      then have "x \<in> set as" and "alert_server_id x = sid"
        by (simp_all add: is_open_offline_def)
      then show ?thesis using a by (auto simp: one_open_per_host_def)
    qed
  qed
next
  assume "\<forall>sid. open_offline_count sid as \<le> 1"
  then show "one_open_per_host as" by (simp add: one_open_per_host_def)
qed

lemma foldr_max_ge: "x \<in> set xs \<Longrightarrow> x \<le> foldr max xs (0::nat)"
  by (induction xs) auto

lemma fresh_alert_id_new: "fresh_alert_id as \<notin> set (map alert_id as)"
proof
  assume "fresh_alert_id as \<in> set (map alert_id as)"
  then have "fresh_alert_id as \<le> foldr max (map alert_id as) 0"
    by (rule foldr_max_ge)
  then show False by (simp add: fresh_alert_id_def)
qed

lemma create_alerts_ids:
  "distinct (map alert_id as) \<Longrightarrow> distinct (map alert_id (fst (create_alerts L W srvs (as, n))))"
proof (induction srvs arbitrary: as n)
  case Nil
  then show ?case by simp
next
  case (Cons x srvs)
  have "distinct (map alert_id (as @ [offline_alert L W as x]))"
    using Cons.prems fresh_alert_id_new [of as] by (simp add: offline_alert_def)
  then show ?case
    using Cons by (auto split: option.splits)
qed

lemma create_alerts_count:
  assumes "faults W AlertsSelect = None" and "faults W AlertsInsert = None"
    and "open_offline_count sid as \<le> 1"
  shows "open_offline_count sid (fst (create_alerts L W srvs (as, n)))
           = (if sid \<in> srv_id ` set srvs then 1 else open_offline_count sid as)"
  using assms(3)
proof (induction srvs arbitrary: as n)
  case Nil
  then show ?case by simp
next
  case (Cons x srvs)
  show ?case
  proof (cases "single (filter (is_open_offline (srv_id x)) as)")
    case None
    let ?as = "as @ [offline_alert L W as x]"
    have step: "create_alerts L W (x # srvs) (as, n) = create_alerts L W srvs (?as, n + 1)"
      using None assms(1,2) by (simp add: open_offline_alert_def)
    show ?thesis
    proof (cases "srv_id x = sid")
      case True
      then have "filter (is_open_offline sid) as = []"
        using None Cons.prems
        by (cases "filter (is_open_offline sid) as" rule: single.cases)
          (simp_all add: open_offline_count_def)
      then have c: "open_offline_count sid ?as = 1"
        using True by (simp add: open_offline_count_def offline_alert_def is_open_offline_def)
      then show ?thesis
        using Cons.IH [of ?as "n + 1"] step True by simp
    next
      case False
      then have c: "open_offline_count sid ?as = open_offline_count sid as"
        by (simp add: open_offline_count_def offline_alert_def is_open_offline_def)
      then show ?thesis
        using Cons.IH [of ?as "n + 1"] Cons.prems step False by simp
    qed
  next
    case (Some e)
    have step: "create_alerts L W (x # srvs) (as, n) = create_alerts L W srvs (as, n)"
      using Some assms(1) by (simp add: open_offline_alert_def)
    show ?thesis
    proof (cases "srv_id x = sid")
      case True
      then have "open_offline_count sid as = 1"
        using single_Some_length [OF Some] by (simp add: open_offline_count_def)
      then show ?thesis using Cons.IH [of as n] step True by simp
    next
      case False
      then show ?thesis using Cons.IH [of as n] Cons.prems step by simp
    qed
  qed
qed


lemma clear_by_id_ids: "map alert_id (clear_by_id k as) = map alert_id as"
  by (simp add: clear_by_id_def comp_def if_distrib [of alert_id] cong: if_cong)

lemma clear_by_id_count_le:
  "open_offline_count sid (clear_by_id k as) \<le> open_offline_count sid as"
  unfolding open_offline_count_def clear_by_id_def
  by (induction as) (auto simp: is_open_offline_def)

lemma clear_by_id_removes:
  assumes "filter (is_open_offline sid) as = [e]"
  shows "open_offline_count sid (clear_by_id (alert_id e) as) = 0"
proof -
  have "\<And>a. a \<in> set as \<Longrightarrow> is_open_offline sid a \<Longrightarrow> a = e"
  proof -
    fix a assume "a \<in> set as" and "is_open_offline sid a"
    then have "a \<in> set (filter (is_open_offline sid) as)" by simp
    then show "a = e" using assms by simp
  qed
  then have "\<forall>a \<in> set as. \<not> is_open_offline sid
      (if alert_id a = alert_id e then a\<lparr>alert_status := ''cleared''\<rparr> else a)"
    by (auto simp: is_open_offline_def)
  then show ?thesis
    by (simp add: open_offline_count_def clear_by_id_def filter_empty_conv)
qed

lemma clear_by_id_other:
  assumes "distinct (map alert_id as)" and "e \<in> set as" and "alert_server_id e \<noteq> sid"
  shows "filter (is_open_offline sid) (clear_by_id (alert_id e) as)
           = filter (is_open_offline sid) as"
proof -
  have inj: "inj_on alert_id (set as)"
    using assms(1) by (simp add: distinct_map)
  have "\<And>a. a \<in> set as \<Longrightarrow> alert_id a = alert_id e \<Longrightarrow> a = e"
    using inj assms(2) by (auto dest: inj_onD)
  then have "\<forall>a \<in> set as.
      is_open_offline sid (if alert_id a = alert_id e then a\<lparr>alert_status := ''cleared''\<rparr> else a)
        = is_open_offline sid a
      \<and> (is_open_offline sid a \<longrightarrow>
           (if alert_id a = alert_id e then a\<lparr>alert_status := ''cleared''\<rparr> else a) = a)"
    using assms(3) by (auto simp: is_open_offline_def)
  then have "\<And>xs. set xs \<subseteq> set as \<Longrightarrow>
     filter (is_open_offline sid)
       (map (\<lambda>a. if alert_id a = alert_id e then a\<lparr>alert_status := ''cleared''\<rparr> else a) xs)
     = filter (is_open_offline sid) xs"
    subgoal for xs by (induction xs) auto
    done
  then show ?thesis by (simp add: clear_by_id_def)
qed

lemma clear_alerts_ids:
  "map alert_id (fst (clear_alerts W srvs (as, n))) = map alert_id as"
proof (induction srvs arbitrary: as n)
  case Nil
  then show ?case by simp
next
  case (Cons x srvs)
  show ?case
    by (simp add: Cons.IH clear_by_id_ids split: option.splits)
qed

lemma clear_alerts_count_le:
  "open_offline_count sid (fst (clear_alerts W srvs (as, n))) \<le> open_offline_count sid as"
proof (induction srvs arbitrary: as n)
  case Nil
  then show ?case by simp
next
  case (Cons x srvs)
  show ?case
  proof (cases "open_offline_alert W as (srv_id x)")
    case None
    then show ?thesis using Cons.IH [of as n] by simp
  next
    case (Some e)
    show ?thesis
    proof (cases "faults W AlertsUpdate")
      case None
      have "open_offline_count sid (fst (clear_alerts W srvs (clear_by_id (alert_id e) as, n + 1)))
              \<le> open_offline_count sid (clear_by_id (alert_id e) as)"
        by (rule Cons.IH)
      also have "\<dots> \<le> open_offline_count sid as"
        by (rule clear_by_id_count_le)
      finally show ?thesis using Some None by simp
    next
      case (Some m)
      then show ?thesis using \<open>open_offline_alert W as (srv_id x) = Some e\<close> Cons.IH [of as "n + 1"]
        by simp
    qed
  qed
qed

lemma clear_alerts_count_zero:
  assumes "faults W AlertsSelect = None" and "faults W AlertsUpdate = None"
    and "sid \<in> srv_id ` set srvs" and "open_offline_count sid as \<le> 1"
  shows "open_offline_count sid (fst (clear_alerts W srvs (as, n))) = 0"
  using assms(3,4)
proof (induction srvs arbitrary: as n)
  case Nil
  then show ?case by simp
next
  case (Cons x srvs)
  show ?case
  proof (cases "srv_id x = sid")
    case True
    show ?thesis
    proof (cases "single (filter (is_open_offline sid) as)")
      case None
      then have "filter (is_open_offline sid) as = []"
        using Cons.prems(2)
        by (cases "filter (is_open_offline sid) as" rule: single.cases)
          (simp_all add: open_offline_count_def)
      then have z: "open_offline_count sid as = 0" by (simp add: open_offline_count_def)
      have "clear_alerts W (x # srvs) (as, n) = clear_alerts W srvs (as, n)"
        using None True assms(1) by (simp add: open_offline_alert_def)
      then show ?thesis using clear_alerts_count_le [of sid W srvs as n] z by simp
    next
      case (Some e)
      then have f: "filter (is_open_offline sid) as = [e]" by (rule single_Some_length)
      have "clear_alerts W (x # srvs) (as, n)
              = clear_alerts W srvs (clear_by_id (alert_id e) as, n + 1)"
        using Some True assms(1,2) by (simp add: open_offline_alert_def)
      then show ?thesis
        using clear_alerts_count_le [of sid W srvs "clear_by_id (alert_id e) as" "n + 1"]
          clear_by_id_removes [OF f] by simp
    qed
  next
    case False
    then have m: "sid \<in> srv_id ` set srvs" using Cons.prems(1) by auto
    show ?thesis
    proof (cases "open_offline_alert W as (srv_id x)")
      case None
      then show ?thesis using Cons.IH [OF m Cons.prems(2)] by simp
    next
      case (Some e)
      have "open_offline_count sid (clear_by_id (alert_id e) as) \<le> 1"
        using clear_by_id_count_le [of sid "alert_id e" as] Cons.prems(2) by simp
      then show ?thesis
        using Some assms(2) Cons.IH [OF m] by simp
    qed
  qed
qed

lemma clear_alerts_count_same:
  assumes "sid \<notin> srv_id ` set srvs" and "distinct (map alert_id as)"
  shows "open_offline_count sid (fst (clear_alerts W srvs (as, n))) = open_offline_count sid as"
  using assms
proof (induction srvs arbitrary: as n)
  case Nil
  then show ?case by simp
next
  case (Cons x srvs)
  have ne: "srv_id x \<noteq> sid" and m: "sid \<notin> srv_id ` set srvs"
    using Cons.prems(1) by auto
  show ?case
  proof (cases "open_offline_alert W as (srv_id x)")
    case None
    then show ?thesis
      using Cons.IH [OF m Cons.prems(2)] by simp
  next
    case (Some e)
    then have "single (filter (is_open_offline (srv_id x)) as) = Some e"
      by (simp add: open_offline_alert_def split: option.splits)
    then have "filter (is_open_offline (srv_id x)) as = [e]" by (rule single_Some_length)
    then have "e \<in> set (filter (is_open_offline (srv_id x)) as)" by simp
    then have e: "e \<in> set as" "alert_server_id e \<noteq> sid"
      using ne by (simp_all add: is_open_offline_def)
    have c: "open_offline_count sid (clear_by_id (alert_id e) as) = open_offline_count sid as"
      using clear_by_id_other [OF Cons.prems(2) e] by (simp add: open_offline_count_def)
    have d: "distinct (map alert_id (clear_by_id (alert_id e) as))"
      using Cons.prems(2) by (simp add: clear_by_id_ids)
    show ?thesis
      using Some c Cons.IH [OF m d] Cons.IH [OF m Cons.prems(2)]
      by (simp split: option.splits)
  qed
qed


lemma offline_detector_alerts:
  assumes "detector_runs W req"
  shows "alerts (fst (offline_detector L W s req))
           = fst (clear_alerts W
                (filter (seen_since (now W - OFFLINE_THRESHOLD_MINUTES * 60 * 1000)) (servers s))
                (fst (create_alerts L W
                   (filter (seen_before (now W - OFFLINE_THRESHOLD_MINUTES * 60 * 1000)) (servers s))
                   (alerts s, 0)), 0))"
    and "servers (fst (offline_detector L W s req)) = servers s"
  using assms
  by (simp_all add: offline_detector_def detector_runs_def Let_def split: prod.splits)

text \<open>One run of the detector, from a store in which no server has two open offline alerts.\<close>

lemma offline_detector_effect:
  assumes run: "detector_runs W req"
    and inv: "one_open_per_host (alerts s)"
    and pk: "primary_keys s"
  shows "one_open_per_host (alerts (fst (offline_detector L W s req)))"
    and "primary_keys (fst (offline_detector L W s req))"
    and "srv \<in> set (servers s) \<Longrightarrow>
           seen_before (now W - OFFLINE_THRESHOLD_MINUTES * 60 * 1000) srv \<Longrightarrow>
           open_offline_count (srv_id srv) (alerts (fst (offline_detector L W s req))) = 1"
    and "srv \<in> set (servers s) \<Longrightarrow>
           seen_since (now W - OFFLINE_THRESHOLD_MINUTES * 60 * 1000) srv \<Longrightarrow>
           open_offline_count (srv_id srv) (alerts (fst (offline_detector L W s req))) = 0"
proof -
  let ?c = "now W - OFFLINE_THRESHOLD_MINUTES * 60 * 1000"
  let ?off = "filter (seen_before ?c) (servers s)"
  let ?on = "filter (seen_since ?c) (servers s)"
  let ?as1 = "fst (create_alerts L W ?off (alerts s, 0))"
  let ?as2 = "fst (clear_alerts W ?on (?as1, 0))"
  have al: "alerts (fst (offline_detector L W s req)) = ?as2"
    using offline_detector_alerts(1) [OF run] .
  have nf: "faults W AlertsSelect = None" "faults W AlertsInsert = None"
      "faults W AlertsUpdate = None"
    using run by (simp_all add: detector_runs_def)
  have c0: "\<And>sid. open_offline_count sid (alerts s) \<le> 1"
    using inv by (simp add: one_open_per_host_iff)
  have c1: "\<And>sid. open_offline_count sid ?as1
                = (if sid \<in> srv_id ` set ?off then 1 else open_offline_count sid (alerts s))"
    using create_alerts_count [OF nf(1,2) c0] .
  then have c1le: "\<And>sid. open_offline_count sid ?as1 \<le> 1"
    using c0 by simp
  have "\<And>sid. open_offline_count sid ?as2 \<le> 1"
    using clear_alerts_count_le [of _ W ?on ?as1 0] c1le le_trans by blast
  then show "one_open_per_host (alerts (fst (offline_detector L W s req)))"
    unfolding al by (simp add: one_open_per_host_iff)
  have d1: "distinct (map alert_id ?as1)"
    using pk create_alerts_ids by (simp add: primary_keys_def)
  then have "distinct (map alert_id ?as2)"
    by (simp add: clear_alerts_ids)
  then show "primary_keys (fst (offline_detector L W s req))"
    using pk offline_detector_alerts(2) [OF run] al by (simp add: primary_keys_def)
  have inj: "inj_on srv_id (set (servers s))"
    using pk by (simp add: primary_keys_def distinct_map)
  show "open_offline_count (srv_id srv) (alerts (fst (offline_detector L W s req))) = 1"
    if m: "srv \<in> set (servers s)" and b: "seen_before ?c srv"
  proof -
    have "srv_id srv \<in> srv_id ` set ?off" using m b by simp
    then have one: "open_offline_count (srv_id srv) ?as1 = 1" using c1 by simp
    have "srv_id srv \<notin> srv_id ` set ?on"
    proof
      assume "srv_id srv \<in> srv_id ` set ?on"
      then obtain x where x: "x \<in> set (servers s)" "seen_since ?c x" "srv_id x = srv_id srv"
        by auto
      then have "x = srv" using inj m by (auto dest: inj_onD)
      then show False
        using x(2) b by (auto simp: seen_since_def seen_before_def split: option.splits)
    qed
    then show ?thesis
      unfolding al using clear_alerts_count_same [OF _ d1] one by simp
  qed
  show "open_offline_count (srv_id srv) (alerts (fst (offline_detector L W s req))) = 0"
    if m: "srv \<in> set (servers s)" and b: "seen_since ?c srv"
  proof -
    have "srv_id srv \<in> srv_id ` set ?on" using m b by simp
    then show ?thesis
      unfolding al using clear_alerts_count_zero [OF nf(1,3) _ c1le] by simp
  qed
qed

text \<open>An accepted heartbeat stamps the host's server row and touches no alert.\<close>

lemma alerts_write_unchecked:
  "(\<And>t. alerts (f t) = alerts t) \<Longrightarrow> alerts (write_unchecked W op f s) = alerts s"
  by (simp add: write_unchecked_def split: option.splits)

lemma alerts_ingest_writes: "alerts (ingest_writes L W c data s) = alerts s"
  by (simp add: ingest_writes_def Let_def alerts_write_unchecked update_server_facts_def)

lemma heartbeat_stamps_host:
  assumes "req_method req = ''POST''"
    and "ingest L W s req = (s1, r1)"
    and "status r1 = 200"
    and "ingest_verify L W s req = Inr c"
    and "faults W ServersUpdate = None"
  shows "alerts s1 = alerts s"
    and "map srv_id (servers s1) = map srv_id (servers s)"
    and "\<exists>srv' \<in> set (servers s1). srv_id srv' = srv_id (ctx_server c)
            \<and> srv_last_seen srv' = Some (now W)"
proof -
  obtain s' where st: "storeNonce W s (ctx_orgId c) (ctx_agentId c) (ctx_nonce c) = Returns s'"
    using assms(1-4) by (auto simp: ingest_def split: outcome.splits)
  have s': "servers s' = servers s" "alerts s' = alerts s"
    using storeNonce_Returns(1) [OF st] by simp_all
  have "ingest_commit L W c s' = (s1, r1)"
    using assms(1,2,4) st by (simp add: ingest_def)
  then obtain data where s1: "s1 = ingest_writes L W c data s'"
    using assms(3) by (auto simp: ingest_commit_def split: sum.splits)
  show "alerts s1 = alerts s"
    using s1 s' by (simp add: alerts_ingest_writes)
  have sv: "servers s1 = servers (update_server_facts W (ctx_agentId c) (jget data ''server'') s')"
    using s1 assms(5) by (simp add: servers_ingest_writes write_unchecked_def)
  then show "map srv_id (servers s1) = map srv_id (servers s)"
    using s' by (simp add: update_server_facts_def comp_def if_distrib [of srv_id] cong: if_cong)
  have "single (filter (\<lambda>r. srv_agent_id r = ctx_agentId c) (servers s)) = Some (ctx_server c)"
    using ingest_verify_Inr_D [OF assms(4)]
    by (auto simp: getServerByAgentId_def split: option.splits)
  then have "filter (\<lambda>r. srv_agent_id r = ctx_agentId c) (servers s) = [ctx_server c]"
    by (rule single_Some_length)
  then have "ctx_server c \<in> set (filter (\<lambda>r. srv_agent_id r = ctx_agentId c) (servers s))"
    by simp
  then have m: "ctx_server c \<in> set (servers s)" "srv_agent_id (ctx_server c) = ctx_agentId c"
    by simp_all
  let ?r = "(ctx_server c)\<lparr>srv_cols := set_cols (server_fact_cols (jget data ''server''))
                (srv_cols (ctx_server c)), srv_last_seen := Some (now W)\<rparr>"
  have "?r \<in> set (servers s1)"
    using m s' unfolding sv update_server_facts_def by force
  then show "\<exists>srv' \<in> set (servers s1). srv_id srv' = srv_id (ctx_server c)
            \<and> srv_last_seen srv' = Some (now W)"
    by (intro bexI [of _ ?r]) simp_all
qed


lemma seen_before_iff: "seen_before c srv \<longleftrightarrow> (\<exists>t. srv_last_seen srv = Some t \<and> t < c)"
  by (auto simp: seen_before_def split: option.splits)

lemma seen_since_iff: "seen_since c srv \<longleftrightarrow> (\<exists>t. srv_last_seen srv = Some t \<and> c \<le> t)"
  by (auto simp: seen_since_def split: option.splits)

text \<open>
  Claim C7, as stated, fails in these ways, each one run on the sample deployment.
  The boundary: the detector selects the servers whose last-seen is strictly before now
  minus ten minutes, so a host last seen exactly ten minutes ago gets no alert. The
  query for the open alert: its error is not looked at, so in a second run in which it
  fails (answered 200) the host, which had one open alert, gets a second one; and two
  open alerts are never repaired, as the next run, in which nothing fails, opens a
  third. The insert of the alert: when it fails the host acquires none. The heartbeat:
  an accepted one (200) whose update of the server row failed leaves last-seen as it
  was, and the following run keeps the alert open; so does a run whose update of the
  alert fails, and a run more than ten minutes after the heartbeat. Last-seen: it is
  stamped by enrolment as well, so a host that never sent a heartbeat and enrolled again
  forty seconds before the run gets no alert.
\<close>

theorem offline_boundary_counterexample:
  "sample_server \<in> set (servers sample_store)
   \<and> srv_last_seen sample_server = Some 0
   \<and> now (sample_world 600000) - 0 = 10 * 60 * 1000
   \<and> status (snd (offline_detector sample_lib (sample_world 600000) sample_store cron_request)) = 200
   \<and> open_offline_count (srv_id sample_server)
        (alerts (fst (offline_detector sample_lib (sample_world 600000) sample_store cron_request))) = 0
   \<and> open_offline_count (srv_id sample_server) (alerts after_first_run) = 1
   \<and> status (snd (offline_detector sample_lib (fault_world AlertsSelect 600002) after_first_run
                     cron_request)) = 200
   \<and> open_offline_count (srv_id sample_server) (alerts after_failed_select) = 2
   \<and> open_offline_count (srv_id sample_server) (alerts after_next_run) = 3
   \<and> status (snd (offline_detector sample_lib (fault_world AlertsInsert 600001) sample_store
                     cron_request)) = 200
   \<and> open_offline_count (srv_id sample_server) (alerts after_failed_insert) = 0
   \<and> open_offline_count (srv_id sample_server) (alerts after_second_run) = 1
   \<and> status (snd lost_heartbeat) = 200
   \<and> open_offline_count (srv_id sample_server) (alerts after_lost_heartbeat) = 1
   \<and> open_offline_count (srv_id sample_server) (alerts after_failed_clear) = 1
   \<and> open_offline_count (srv_id sample_server) (alerts after_late_run) = 1
   \<and> status (snd reenrolment) = 200
   \<and> heartbeats (fst reenrolment) = []
   \<and> open_offline_count (srv_id sample_server) (alerts after_reenrolment) = 0"
  by code_simp

text \<open>
  Claim C7, amended. Take a store whose primary keys hold and in which no host has more
  than one open offline alert, and runs of the detector one after the other, each
  admitted and each with its four store operations (the query for the servers, the
  query for the open alert, the insert and the update of an alert) succeeding. Then no
  host ever has two open offline alerts; a host whose last-seen (stamped by heartbeats
  and by enrolment) is more than ten minutes before the first run has exactly one open
  offline alert after it and still exactly one after the second run. After a heartbeat
  of that host that is accepted and whose update of the server row succeeds, a run of
  the detector no later than ten minutes after the heartbeat leaves the host without an
  open offline alert.
\<close>

theorem offline_alert_lifecycle:
  assumes "one_open_per_host (alerts s)" and "primary_keys s"
    and "srv \<in> set (servers s)" and "srv_last_seen srv = Some t"
    and "t < now W1 - 10 * 60 * 1000"
    and "detector_runs W1 req1" and "s1 = fst (offline_detector L W1 s req1)"
    and "detector_runs W2 req2" and "s2 = fst (offline_detector L W2 s1 req2)"
    and "now W1 \<le> now W2"
    and "req_method reqh = ''POST''" and "ingest L Wh s2 reqh = (sh, rh)" and "status rh = 200"
    and "ingest_verify L Wh s2 reqh = Inr c" and "srv_id (ctx_server c) = srv_id srv"
    and "faults Wh ServersUpdate = None"
    and "detector_runs W3 req3" and "s3 = fst (offline_detector L W3 sh req3)"
    and "now W3 - 10 * 60 * 1000 \<le> now Wh"
  shows "open_offline_count (srv_id srv) (alerts s1) = 1 \<and> one_open_per_host (alerts s1)
       \<and> open_offline_count (srv_id srv) (alerts s2) = 1 \<and> one_open_per_host (alerts s2)
       \<and> open_offline_count (srv_id srv) (alerts s3) = 0 \<and> one_open_per_host (alerts s3)"
proof -
  have b1: "seen_before (now W1 - OFFLINE_THRESHOLD_MINUTES * 60 * 1000) srv"
    using assms(4,5) by (simp add: seen_before_iff OFFLINE_THRESHOLD_MINUTES_def)
  have b2: "seen_before (now W2 - OFFLINE_THRESHOLD_MINUTES * 60 * 1000) srv"
    using assms(4,5,10) by (simp add: seen_before_iff OFFLINE_THRESHOLD_MINUTES_def)
  note e1 = offline_detector_effect [where L = L, OF assms(6,1,2)]
  have i1: "one_open_per_host (alerts s1)" and p1: "primary_keys s1"
    and c1: "open_offline_count (srv_id srv) (alerts s1) = 1"
    using e1(1,2) e1(3) [OF assms(3) b1] assms(7) by simp_all
  have m1: "srv \<in> set (servers s1)"
    using assms(3,7) offline_detector_alerts(2) [OF assms(6), of L s] by simp
  note e2 = offline_detector_effect [where L = L, OF assms(8) i1 p1]
  have i2: "one_open_per_host (alerts s2)" and p2: "primary_keys s2"
    and c2: "open_offline_count (srv_id srv) (alerts s2) = 1"
    using e2(1,2) e2(3) [OF m1 b2] assms(9) by simp_all
  note h = heartbeat_stamps_host [OF assms(11,12,13,14,16)]
  have ih: "one_open_per_host (alerts sh)" and ph: "primary_keys sh"
    using h(1,2) i2 p2 by (simp_all add: primary_keys_def)
  obtain srv' where s': "srv' \<in> set (servers sh)" "srv_id srv' = srv_id srv"
      "srv_last_seen srv' = Some (now Wh)"
    using h(3) assms(15) by auto
  have b3: "seen_since (now W3 - OFFLINE_THRESHOLD_MINUTES * 60 * 1000) srv'"
    using s'(3) assms(19) by (simp add: seen_since_iff OFFLINE_THRESHOLD_MINUTES_def)
  note e3 = offline_detector_effect [where L = L, OF assms(17) ih ph]
  have "one_open_per_host (alerts s3)" and "open_offline_count (srv_id srv) (alerts s3) = 0"
    using e3(1) e3(4) [OF s'(1) b3] s'(2) assms(18) by simp_all
  then show ?thesis using i1 c1 i2 c2 by simp
qed


lemma cron_request_runs: "detector_runs (sample_world t) cron_request"
  by (simp add: detector_runs_def cron_refused_def createServiceClient_def env_set_def
      sample_world_def sample_env_def cron_request_def)

lemma sample_store_ok: "one_open_per_host (alerts sample_store)" "primary_keys sample_store"
    "sample_server \<in> set (servers sample_store)" "srv_last_seen sample_server = Some 0"
  by (simp_all add: one_open_per_host_def primary_keys_def sample_store_def sample_server_def)

lemma late_request_verified:
  "ingest_verify sample_lib (sample_world 660000) after_second_run late_request = Inr late_ctx"
  by code_simp

lemma late_request_accepted:
  "status (snd (ingest sample_lib (sample_world 660000) after_second_run late_request)) = 200"
  by code_simp

theorem offline_alert_lifecycle_witness:
  "open_offline_count (srv_id sample_server) (alerts after_first_run) = 1
   \<and> open_offline_count (srv_id sample_server) (alerts after_second_run) = 1
   \<and> one_open_per_host (alerts after_second_run)
   \<and> open_offline_count (srv_id sample_server) (alerts after_third_run) = 0"
proof -
  have t1: "(0::int) < now (sample_world 600001) - 10 * 60 * 1000"
    by (simp add: sample_world_def)
  have t2: "now (sample_world 600001) \<le> now (sample_world 600002)"
    by (simp add: sample_world_def)
  have t3: "now (sample_world 700000) - 10 * 60 * 1000 \<le> now (sample_world 660000)"
    by (simp add: sample_world_def)
  have m: "req_method late_request = ''POST''"
    by (simp add: late_request_def)
  have i: "ingest sample_lib (sample_world 660000) after_second_run late_request
             = (after_heartbeat,
                snd (ingest sample_lib (sample_world 660000) after_second_run late_request))"
    by (simp add: after_heartbeat_def)
  have h: "srv_id (ctx_server late_ctx) = srv_id sample_server"
    by (simp add: late_ctx_def)
  show ?thesis
    using offline_alert_lifecycle [OF sample_store_ok t1 cron_request_runs after_first_run_def
        cron_request_runs after_second_run_def t2 m i late_request_accepted
        late_request_verified h sample_world_no_faults cron_request_runs
        after_third_run_def t3]
    by simp
qed



subsection \<open>Authorisation and summaries of the scheduled functions\<close>

lemma create_alerts_rows:
  assumes "faults W AlertsInsert = None"
  shows "length (fst (create_alerts L W srvs (as, n))) + n
           = length as + snd (create_alerts L W srvs (as, n))"
    and "cleared_count (fst (create_alerts L W srvs (as, n))) = cleared_count as"
proof (induction srvs arbitrary: as n)
  case Nil
  {
    case 1 show ?case by simp
  next
    case 2 show ?case by simp
  }
next
  case (Cons x srvs)
  {
    case 1
    show ?case
    proof (cases "open_offline_alert W as (srv_id x)")
      case None
      then show ?thesis
        using Cons.IH(1) [of "as @ [offline_alert L W as x]" "n + 1"] assms by simp
    next
      case (Some e)
      then show ?thesis using Cons.IH(1) [of as n] by simp
    qed
  next
    case 2
    show ?case
    proof (cases "open_offline_alert W as (srv_id x)")
      case None
      then show ?thesis
        using Cons.IH(2) [of "as @ [offline_alert L W as x]" "n + 1"] assms
        by (simp add: cleared_count_def offline_alert_def)
    next
      case (Some e)
      then show ?thesis using Cons.IH(2) [of as n] by simp
    qed
  }
qed

lemma clear_by_id_absent: "k \<notin> alert_id ` set as \<Longrightarrow> clear_by_id k as = as"
  unfolding clear_by_id_def by (induction as) auto

lemma clear_by_id_rows:
  assumes "distinct (map alert_id as)" and "e \<in> set as" and "alert_status e \<noteq> ''cleared''"
  shows "cleared_count (clear_by_id (alert_id e) as) = Suc (cleared_count as)"
  using assms
proof (induction as)
  case Nil
  then show ?case by simp
next
  case (Cons a as)
  show ?case
  proof (cases "a = e")
    case True
    then have "alert_id e \<notin> alert_id ` set as" using Cons.prems(1) by simp
    then have "clear_by_id (alert_id e) as = as"
      by (rule clear_by_id_absent)
    then show ?thesis
      using True Cons.prems(3) by (simp add: clear_by_id_def cleared_count_def)
  next
    case False
    then have m: "e \<in> set as" using Cons.prems(2) by simp
    then have "alert_id a \<noteq> alert_id e" using Cons.prems(1) by auto
    then show ?thesis
      using Cons.IH [OF _ m Cons.prems(3)] Cons.prems(1)
      by (simp add: clear_by_id_def cleared_count_def)
  qed
qed

lemma open_offline_alert_found:
  assumes "open_offline_alert W as sid = Some e"
  shows "e \<in> set as" and "alert_status e = ''open''"
proof -
  have "single (filter (is_open_offline sid) as) = Some e"
    using assms by (simp add: open_offline_alert_def split: option.splits)
  then have "filter (is_open_offline sid) as = [e]" by (rule single_Some_length)
  then have "e \<in> set (filter (is_open_offline sid) as)" by simp
  then show "e \<in> set as" and "alert_status e = ''open''"
    by (simp_all add: is_open_offline_def)
qed

lemma clear_alerts_rows:
  assumes "faults W AlertsUpdate = None" and "distinct (map alert_id as)"
  shows "cleared_count (fst (clear_alerts W srvs (as, n))) + n
           = cleared_count as + snd (clear_alerts W srvs (as, n))"
  using assms(2)
proof (induction srvs arbitrary: as n)
  case Nil
  then show ?case by simp
next
  case (Cons x srvs)
  show ?case
  proof (cases "open_offline_alert W as (srv_id x)")
    case None
    then show ?thesis using Cons.IH [OF Cons.prems, of n] by simp
  next
    case (Some e)
    note f = open_offline_alert_found [OF Some]
    have c: "cleared_count (clear_by_id (alert_id e) as) = Suc (cleared_count as)"
      using clear_by_id_rows [OF Cons.prems f(1)] f(2) by simp
    have d: "distinct (map alert_id (clear_by_id (alert_id e) as))"
      using Cons.prems by (simp add: clear_by_id_ids)
    show ?thesis
      using Some assms(1) Cons.IH [OF d, of "n + 1"] c by simp
  qed
qed

lemma clear_alerts_length:
  "length (fst (clear_alerts W srvs (as, n))) = length as"
  using clear_alerts_ids [of W srvs as n] by (metis length_map)

lemma detector_summary:
  assumes "\<not> cron_refused W req" and "createServiceClient W = Returns ()"
    and "faults W ServersSelect = None" and "faults W AlertsInsert = None"
    and "faults W AlertsUpdate = None" and "distinct (map alert_id (alerts s))"
  shows "snd (offline_detector L W s req)
     = jsonResponse (JObj
         [(''success'', JBool True),
          (''timestamp'', JStr (to_iso L (now W))),
          (''offline_servers'', JNum (of_nat (length
              (filter (\<lambda>r. \<exists>t. srv_last_seen r = Some t \<and> t < now W - 10 * 60 * 1000)
                 (servers s))))),
          (''alerts_created'', JNum (of_nat
              (length (alerts (fst (offline_detector L W s req))) - length (alerts s)))),
          (''alerts_cleared'', JNum (of_nat
              (cleared_count (alerts (fst (offline_detector L W s req)))
                 - cleared_count (alerts s))))]) 200"
proof -
  let ?c = "now W - OFFLINE_THRESHOLD_MINUTES * 60 * 1000"
  let ?off = "filter (seen_before ?c) (servers s)"
  let ?on = "filter (seen_since ?c) (servers s)"
  let ?r1 = "create_alerts L W ?off (alerts s, 0)"
  let ?r2 = "clear_alerts W ?on (fst ?r1, 0)"
  have d1: "distinct (map alert_id (fst ?r1))"
    using assms(6) by (rule create_alerts_ids)
  have n1: "snd ?r1 = length (fst ?r1) - length (alerts s)"
    using create_alerts_rows(1) [OF assms(4), of L ?off "alerts s" 0] by simp
  have n2: "snd ?r2 = cleared_count (fst ?r2) - cleared_count (alerts s)"
    using clear_alerts_rows [OF assms(5) d1, of ?on 0]
      create_alerts_rows(2) [OF assms(4), of L ?off "alerts s" 0] by simp
  have l: "length (fst ?r2) = length (fst ?r1)"
    by (rule clear_alerts_length)
  have o: "?off = filter (\<lambda>r. \<exists>t. srv_last_seen r = Some t \<and> t < now W - 10 * 60 * 1000)
                    (servers s)"
    by (simp add: seen_before_iff OFFLINE_THRESHOLD_MINUTES_def cong: filter_cong)
  have "offline_detector L W s req
     = (s\<lparr>alerts := fst ?r2\<rparr>,
        jsonResponse (JObj
          [(''success'', JBool True),
           (''timestamp'', JStr (to_iso L (now W))),
           (''offline_servers'', JNum (of_nat (length ?off))),
           (''alerts_created'', JNum (of_nat (snd ?r1))),
           (''alerts_cleared'', JNum (of_nat (snd ?r2)))]) 200)"
    using assms(1-3) by (simp add: offline_detector_def Let_def split: prod.splits)
  then show ?thesis
    using n1 n2 l o by simp
qed

text \<open>
  Claim C9, as stated, fails in three ways. The check of the secret is skipped
  altogether when \<open>CRON_SECRET\<close> is not configured: in such a deployment a request
  without any \<open>Authorization\<close> header runs each of the three jobs and is answered 200.
  The summary of the nonce cleanup does not tell the rows affected: the delete is sent
  without asking the store for a count, so \<open>nonces_deleted\<close> is 0 while the one stale
  nonce of the store is deleted. The summary of the rollup builder holds no count of
  rows: its members are \<open>success\<close>, \<open>timestamp\<close>, \<open>message\<close> and the two bucket starts,
  here after a run that wrote a rollup row.
\<close>

theorem cron_secret_optional_counterexample:
  "req_headers anonymous_request ''Authorization'' = None
   \<and> status (snd (offline_detector sample_lib (open_world 0) sample_store anonymous_request)) = 200
   \<and> status (snd (nonce_cleanup sample_lib (open_world 0) sample_store anonymous_request)) = 200
   \<and> status (snd (rollup_builder sample_lib (open_world 0) sample_store anonymous_request)) = 200
   \<and> api_nonces stale_nonce_store = [sample_nonce]
   \<and> api_nonces (fst (nonce_cleanup sample_lib (sample_world 700000) stale_nonce_store
                         cron_request)) = []
   \<and> jget (Some (body (snd (nonce_cleanup sample_lib (sample_world 700000) stale_nonce_store
                               cron_request)))) ''nonces_deleted'' = Some (JNum 0)
   \<and> heartbeats_rollup_1m after_ingest = []
   \<and> length (heartbeats_rollup_1m
               (fst (rollup_builder sample_lib (sample_world 60000) after_ingest cron_request))) = 1
   \<and> jkeys (body (snd (rollup_builder sample_lib (sample_world 60000) after_ingest cron_request)))
       = [''success'', ''timestamp'', ''message'', ''bucket_1m'', ''bucket_1h'']"
  by code_simp

text \<open>
  Claim C9, amended. When \<open>CRON_SECRET\<close> is configured (set and not empty), every
  scheduled-job request whose \<open>Authorization\<close> header is absent or is not \<open>Bearer\<close>
  followed by the secret is answered 401 and the store is untouched. A request that
  carries the secret, or any request when no secret is configured, is admitted. For an
  admitted request, the store client being available: the offline detector, when its
  query for the servers and its writes to the alerts do not fail and the alerts have
  distinct keys, is answered 200 with a summary of the rows affected (the number of
  servers last seen more than ten minutes ago, the number of alert rows inserted and
  the number of alert rows set to \<open>cleared\<close>); the rollup builder is answered 200 with
  the starts of its one-minute and one-hour buckets; the nonce cleanup is answered 200
  when its delete does not fail. What \<open>nonces_deleted\<close> tells is left open.
\<close>

theorem cron_secret_checked_when_configured:
  "(denv W ''CRON_SECRET'' = Some c \<and> c \<noteq> []
      \<and> req_headers req ''Authorization'' \<noteq> Some (''Bearer '' @ c)
      \<longrightarrow> offline_detector L W s req = (s, errorResponse ''Unauthorized'' 401)
        \<and> rollup_builder L W s req = (s, errorResponse ''Unauthorized'' 401)
        \<and> nonce_cleanup L W s req = (s, errorResponse ''Unauthorized'' 401))
   \<and> ((denv W ''CRON_SECRET'' = None \<or> denv W ''CRON_SECRET'' = Some []
        \<or> (\<exists>c. denv W ''CRON_SECRET'' = Some c
               \<and> req_headers req ''Authorization'' = Some (''Bearer '' @ c)))
       \<and> createServiceClient W = Returns ()
      \<longrightarrow> (faults W ServersSelect = None \<and> faults W AlertsInsert = None
            \<and> faults W AlertsUpdate = None \<and> distinct (map alert_id (alerts s))
           \<longrightarrow> snd (offline_detector L W s req)
               = jsonResponse (JObj
                   [(''success'', JBool True),
                    (''timestamp'', JStr (to_iso L (now W))),
                    (''offline_servers'', JNum (of_nat (length
                        (filter (\<lambda>r. \<exists>t. srv_last_seen r = Some t \<and> t < now W - 10 * 60 * 1000)
                           (servers s))))),
                    (''alerts_created'', JNum (of_nat
                        (length (alerts (fst (offline_detector L W s req)))
                           - length (alerts s)))),
                    (''alerts_cleared'', JNum (of_nat
                        (cleared_count (alerts (fst (offline_detector L W s req)))
                           - cleared_count (alerts s))))]) 200)
        \<and> snd (rollup_builder L W s req)
            = jsonResponse (JObj
                [(''success'', JBool True),
                 (''timestamp'', JStr (to_iso L (now W))),
                 (''message'', JStr ''Rollups computed (1m and 1h buckets)''),
                 (''bucket_1m'', JStr (to_iso L ((now W - 2 * 60 * 1000) div (60 * 1000)
                                                  * (60 * 1000)))),
                 (''bucket_1h'', JStr (to_iso L ((now W - 60 * 60 * 1000) div (60 * 60 * 1000)
                                                  * (60 * 60 * 1000))))]) 200
        \<and> (faults W NoncesDelete = None
           \<longrightarrow> status (snd (nonce_cleanup L W s req)) = 200))"
proof (intro conjI impI)
  assume a: "denv W ''CRON_SECRET'' = Some c \<and> c \<noteq> []
      \<and> req_headers req ''Authorization'' \<noteq> Some (''Bearer '' @ c)"
  then have r: "cron_refused W req" by (simp add: cron_refused_def)
  show "offline_detector L W s req = (s, errorResponse ''Unauthorized'' 401)"
    using r by (simp add: offline_detector_def)
  show "rollup_builder L W s req = (s, errorResponse ''Unauthorized'' 401)"
    using r by (simp add: rollup_builder_def)
  show "nonce_cleanup L W s req = (s, errorResponse ''Unauthorized'' 401)"
    using r by (simp add: nonce_cleanup_def)
next
  assume a: "(denv W ''CRON_SECRET'' = None \<or> denv W ''CRON_SECRET'' = Some []
        \<or> (\<exists>c. denv W ''CRON_SECRET'' = Some c
               \<and> req_headers req ''Authorization'' = Some (''Bearer '' @ c)))
       \<and> createServiceClient W = Returns ()"
  then have r: "\<not> cron_refused W req" and cl: "createServiceClient W = Returns ()"
    by (auto simp: cron_refused_def)
  show "snd (rollup_builder L W s req)
            = jsonResponse (JObj
                [(''success'', JBool True),
                 (''timestamp'', JStr (to_iso L (now W))),
                 (''message'', JStr ''Rollups computed (1m and 1h buckets)''),
                 (''bucket_1m'', JStr (to_iso L ((now W - 2 * 60 * 1000) div (60 * 1000)
                                                  * (60 * 1000)))),
                 (''bucket_1h'', JStr (to_iso L ((now W - 60 * 60 * 1000) div (60 * 60 * 1000)
                                                  * (60 * 60 * 1000))))]) 200"
    using r cl by (simp add: rollup_builder_def Let_def)
  {
    assume "faults W NoncesDelete = None"
    then show "status (snd (nonce_cleanup L W s req)) = 200"
      using r cl by (simp add: nonce_cleanup_def cleanupOldNonces_def Let_def)
  }
  {
    assume f: "faults W ServersSelect = None \<and> faults W AlertsInsert = None
            \<and> faults W AlertsUpdate = None \<and> distinct (map alert_id (alerts s))"
    show "snd (offline_detector L W s req)
               = jsonResponse (JObj
                   [(''success'', JBool True),
                    (''timestamp'', JStr (to_iso L (now W))),
                    (''offline_servers'', JNum (of_nat (length
                        (filter (\<lambda>r. \<exists>t. srv_last_seen r = Some t \<and> t < now W - 10 * 60 * 1000)
                           (servers s))))),
                    (''alerts_created'', JNum (of_nat
                        (length (alerts (fst (offline_detector L W s req)))
                           - length (alerts s)))),
                    (''alerts_cleared'', JNum (of_nat
                        (cleared_count (alerts (fst (offline_detector L W s req)))
                           - cleared_count (alerts s))))]) 200"
      using detector_summary [OF r cl] f by blast
  }
qed

lemma first_run_rows:
  "length (alerts (fst (offline_detector sample_lib (sample_world 600001) sample_store
                          cron_request))) - length (alerts sample_store) = 1"
  "cleared_count (alerts (fst (offline_detector sample_lib (sample_world 600001) sample_store
                                 cron_request))) - cleared_count (alerts sample_store) = 0"
  "distinct (map alert_id (alerts sample_store))"
  by code_simp+

lemma first_run_offline:
  "length (filter (\<lambda>r. \<exists>t. srv_last_seen r = Some t \<and> t < now (sample_world 600001) - 10 * 60 * 1000)
             (servers sample_store)) = 1"
  by (simp add: sample_store_def sample_server_def sample_world_def)

theorem cron_secret_checked_when_configured_witness:
  "offline_detector sample_lib (sample_world 600001) sample_store anonymous_request
      = (sample_store, errorResponse ''Unauthorized'' 401)
   \<and> rollup_builder sample_lib (sample_world 600001) sample_store anonymous_request
      = (sample_store, errorResponse ''Unauthorized'' 401)
   \<and> nonce_cleanup sample_lib (sample_world 600001) sample_store anonymous_request
      = (sample_store, errorResponse ''Unauthorized'' 401)
   \<and> snd (offline_detector sample_lib (sample_world 600001) sample_store cron_request)
      = jsonResponse (JObj
          [(''success'', JBool True),
           (''timestamp'', JStr (to_iso sample_lib 600001)),
           (''offline_servers'', JNum 1),
           (''alerts_created'', JNum 1),
           (''alerts_cleared'', JNum 0)]) 200
   \<and> status (snd (rollup_builder sample_lib (sample_world 600001) sample_store cron_request)) = 200
   \<and> status (snd (nonce_cleanup sample_lib (sample_world 600001) sample_store cron_request)) = 200"
proof -
  have e: "denv (sample_world 600001) ''CRON_SECRET'' = Some ''cron''"
    by (simp add: sample_world_def sample_env_def)
  have n: "now (sample_world 600001) = 600001"
    by (simp add: sample_world_def)
  have h1: "req_headers anonymous_request ''Authorization'' \<noteq> Some (''Bearer '' @ ''cron'')"
    by (simp add: anonymous_request_def)
  have h2: "req_headers cron_request ''Authorization'' = Some (''Bearer '' @ ''cron'')"
    by (simp add: cron_request_def)
  have cl: "createServiceClient (sample_world 600001) = Returns ()"
    by (simp add: createServiceClient_def env_set_def sample_world_def sample_env_def)
  note t1 = cron_secret_checked_when_configured
          [of "sample_world 600001" "''cron''" anonymous_request sample_lib sample_store]
  note t2 = cron_secret_checked_when_configured
          [of "sample_world 600001" "''cron''" cron_request sample_lib sample_store]
  have a: "offline_detector sample_lib (sample_world 600001) sample_store anonymous_request
      = (sample_store, errorResponse ''Unauthorized'' 401)
   \<and> rollup_builder sample_lib (sample_world 600001) sample_store anonymous_request
      = (sample_store, errorResponse ''Unauthorized'' 401)
   \<and> nonce_cleanup sample_lib (sample_world 600001) sample_store anonymous_request
      = (sample_store, errorResponse ''Unauthorized'' 401)"
    using t1 e h1 by blast
  have b: "snd (offline_detector sample_lib (sample_world 600001) sample_store cron_request)
      = jsonResponse (JObj
          [(''success'', JBool True),
           (''timestamp'', JStr (to_iso sample_lib 600001)),
           (''offline_servers'', JNum 1),
           (''alerts_created'', JNum 1),
           (''alerts_cleared'', JNum 0)]) 200"
    using t2 e h2 cl sample_world_no_faults [of 600001] first_run_rows first_run_offline n by simp
  have c: "snd (rollup_builder sample_lib (sample_world 600001) sample_store cron_request)
            = jsonResponse (JObj
                [(''success'', JBool True),
                 (''timestamp'', JStr (to_iso sample_lib (now (sample_world 600001)))),
                 (''message'', JStr ''Rollups computed (1m and 1h buckets)''),
                 (''bucket_1m'', JStr (to_iso sample_lib
                    ((now (sample_world 600001) - 2 * 60 * 1000) div (60 * 1000) * (60 * 1000)))),
                 (''bucket_1h'', JStr (to_iso sample_lib
                    ((now (sample_world 600001) - 60 * 60 * 1000) div (60 * 60 * 1000)
                       * (60 * 60 * 1000))))]) 200"
    using t2 e h2 cl by blast
  have d: "status (snd (nonce_cleanup sample_lib (sample_world 600001) sample_store cron_request))
             = 200"
    using t2 e h2 cl sample_world_no_faults [of 600001 NoncesDelete] by blast
  show ?thesis
    using a b c d by simp
qed

subsection \<open>Rollups\<close>

lemma same_bucket_overwrite [simp]: "same_bucket (overwrite g r x) y = same_bucket x y"
  by (simp add: same_bucket_def overwrite_def)

lemma overwrite_twice [simp]: "overwrite g r (overwrite g r x) = overwrite g r x"
  by (cases g) (simp_all add: overwrite_def)

lemma overwrite_self [simp]: "overwrite g r r = r"
  by (cases g) (simp_all add: overwrite_def)

lemma upsert_holds_id: "holds g r t \<Longrightarrow> upsert g r t = t"
  by (auto simp: holds_def upsert_def intro: map_idI)

lemma holds_upsert: "holds g r (upsert g r t)"
proof (cases "\<exists>x \<in> set t. same_bucket x r")
  case True
  then obtain x where x: "x \<in> set t" "same_bucket x r" by blast
  let ?f = "\<lambda>x. if same_bucket x r then overwrite g r x else x"
  have u: "upsert g r t = map ?f t" using True by (simp add: upsert_def)
  have "overwrite g r x \<in> set (map ?f t)"
    using x by (force simp: image_iff)
  then have 1: "\<exists>y \<in> set (map ?f t). same_bucket y r"
    using x(2) by (intro bexI [of _ "overwrite g r x"]) simp_all
  have 2: "\<forall>y \<in> set (map ?f t). same_bucket y r \<longrightarrow> overwrite g r y = y"
    by auto
  show ?thesis unfolding u holds_def using 1 2 by blast
next
  case False
  then show ?thesis by (auto simp: holds_def upsert_def same_bucket_def)
qed

lemma holds_upsert_other:
  assumes "holds g r t" and "\<not> same_bucket r r'"
  shows "holds g r (upsert g r' t)"
proof -
  have ne: "\<And>x. same_bucket x r \<Longrightarrow> \<not> same_bucket x r'"
    using assms(2) by (auto simp: same_bucket_def)
  show ?thesis
    using assms(1) ne
    by (auto simp: holds_def upsert_def) (auto simp: same_bucket_def)
qed

lemma holds_after_fold:
  assumes "distinct (map (\<lambda>r. (rollup_server_id r, bucket r)) new)" and "r \<in> set new"
  shows "holds g r (foldl (\<lambda>t r. upsert g r t) t new)"
  using assms
proof (induction new rule: rev_induct)
  case Nil
  then show ?case by simp
next
  case (snoc y ys)
  show ?case
  proof (cases "r = y")
    case True
    then show ?thesis by (simp add: holds_upsert)
  next
    case False
    then have m: "r \<in> set ys" using snoc.prems(2) by simp
    have d: "distinct (map (\<lambda>r. (rollup_server_id r, bucket r)) ys)"
      using snoc.prems(1) by simp
    have "(rollup_server_id y, bucket y) \<notin> set (map (\<lambda>r. (rollup_server_id r, bucket r)) ys)"
      using snoc.prems(1) by simp
    moreover have "(rollup_server_id r, bucket r)
        \<in> set (map (\<lambda>r. (rollup_server_id r, bucket r)) ys)"
      using m by simp
    ultimately have "\<not> same_bucket r y"
      by (auto simp: same_bucket_def)
    then show ?thesis
      using snoc.IH [OF d m] by (simp add: holds_upsert_other)
  qed
qed

lemma fold_holds_id:
  "(\<And>r. r \<in> set new \<Longrightarrow> holds g r t) \<Longrightarrow> foldl (\<lambda>t r. upsert g r t) t new = t"
  by (induction new) (simp_all add: upsert_holds_id)

lemma upsert_all_idem: "upsert_all g new (upsert_all g new t) = upsert_all g new t"
proof (cases "distinct (map (\<lambda>r. (rollup_server_id r, bucket r)) new)")
  case True
  then show ?thesis
    using fold_holds_id [of new g "foldl (\<lambda>t r. upsert g r t) t new"] holds_after_fold [OF True]
    by (simp add: upsert_all_def)
next
  case False
  then show ?thesis by (simp add: upsert_all_def)
qed

text \<open>Running a rollup statement again over the same heartbeats changes nothing.\<close>

lemma rollup_statement_idem:
  "rollup_statement L g lo hi (rollup_statement L g lo hi s) = rollup_statement L g lo hi s"
  by (cases g) (simp_all add: rollup_statement_def upsert_all_idem)

lemma rollup_builder_idem:
  "fst (rollup_builder L W (fst (rollup_builder L W s req)) req) = fst (rollup_builder L W s req)"
  by (simp add: rollup_builder_def Let_def write_unchecked_def rollup_statement_idem
      split: outcome.splits option.splits)

text \<open>The handler never writes the one-hour table.\<close>

lemma rollup_builder_1h_untouched:
  "heartbeats_rollup_1h (fst (rollup_builder L W s req)) = heartbeats_rollup_1h s"
  by (simp add: rollup_builder_def Let_def write_unchecked_def rollup_statement_def
      split: outcome.splits option.splits)

text \<open>
  Claim C8 says that each bucket is recomputed and overwritten by upsert at both
  granularities. The handler does so for the one-minute table only (and only if the
  stored procedure \<open>exec_sql\<close> exists): it builds the one-hour statement and never sends
  it. With a heartbeat in the store, a run reports "Rollups computed (1m and 1h
  buckets)", has written the one-minute row and has left the one-hour table empty,
  where the one-hour statement would have written a row.
\<close>

theorem hourly_rollup_never_written:
  "heartbeats after_ingest \<noteq> []
   \<and> status (snd (rollup_builder sample_lib (sample_world 60000) after_ingest cron_request)) = 200
   \<and> heartbeats_rollup_1m
        (fst (rollup_builder sample_lib (sample_world 60000) after_ingest cron_request)) \<noteq> []
   \<and> heartbeats_rollup_1h
        (fst (rollup_builder sample_lib (sample_world 60000) after_ingest cron_request)) = []
   \<and> heartbeats_rollup_1h
        (rollup_statement sample_lib Hour (- 3600000) 60000 after_ingest) \<noteq> []"
  by code_simp



subsection \<open>Two identical requests at the same time\<close>

lemma heartbeats_write_unchecked_other:
  "(\<And>t. heartbeats (f t) = heartbeats t) \<Longrightarrow> heartbeats (write_unchecked W op f s) = heartbeats s"
  by (simp add: write_unchecked_def split: option.splits)

lemma heartbeats_ingest_writes:
  "length (heartbeats (ingest_writes L W c data s)) \<le> length (heartbeats s) + 1"
proof -
  have "heartbeats (ingest_writes L W c data s)
          = heartbeats (write_unchecked W HeartbeatsInsert
               (\<lambda>t. t\<lparr>heartbeats := heartbeats t @
                  [heartbeat_row (ctx_orgId c) (srv_id (ctx_server c)) (jget data ''heartbeat'')]\<rparr>)
               (write_unchecked W ServersUpdate
                  (update_server_facts W (ctx_agentId c) (jget data ''server'')) s))"
    by (simp add: ingest_writes_def Let_def heartbeats_write_unchecked_other)
  also have "length \<dots> \<le> length (heartbeats s) + 1"
    by (simp add: write_unchecked_def update_server_facts_def split: option.splits)
  finally show ?thesis .
qed

lemma ingest_commit_effect:
  assumes "ingest_commit L W c s = (s', r)"
  shows "api_nonces s' = api_nonces s"
    and "length (heartbeats s') \<le> length (heartbeats s) + 1"
  using assms heartbeats_ingest_writes [of L W c _ s]
  by (auto simp: ingest_commit_def api_nonces_ingest_writes split: sum.splits)

lemma ctx_ok_verified: "ingest_verify L W s req = Inr c \<Longrightarrow> ctx_ok L W req c"
  using ingest_verify_Inr_D [of L W s req c] by (auto simp: ctx_ok_def)

lemma ctx_ok_same_key:
  assumes "denv WB = denv WA" and "ctx_ok L WA req c" and "ctx_ok L WB req c'"
  shows "ctx_orgId c' = ctx_orgId c \<and> ctx_agentId c' = ctx_agentId c \<and> ctx_nonce c' = ctx_nonce c"
proof -
  obtain a where a: "header req ''Authorization'' = Some a"
    using assms(2) by (auto simp: ctx_ok_def split: option.splits)
  have 1: "verifyAgentJWT L WA (strip_bearer L a) = Returns (ctx_agentId c, ctx_orgId c)"
    and 2: "verifyAgentJWT L WB (strip_bearer L a) = Returns (ctx_agentId c', ctx_orgId c')"
    and n: "header req ''X-Nonce'' = Some (ctx_nonce c)" "header req ''X-Nonce'' = Some (ctx_nonce c')"
    using assms(2,3) a by (simp_all add: ctx_ok_def)
  show ?thesis
    using verifyAgentJWT_same_env [OF assms(1) 1 2] n by simp
qed

lemma race_inv_sym:
  "race_inv L WA WB req s0 (s, pA, pB) \<Longrightarrow> race_inv L WB WA req s0 (s, pB, pA)"
  unfolding race_inv_def by (simp add: add.commute add.left_commute disj_commute conj_commute) blast


lemma past_store_ctx: "past_store p \<Longrightarrow> \<exists>c. ctx_of p = Some c"
  by (cases p) simp_all

lemma race_step:
  assumes env: "denv WB = denv WA"
    and inv: "race_inv L WA WB req s0 (s, pA, pB)"
    and step: "ingest_step L WA req (s, pA) = (s', pA')"
  shows "race_inv L WA WB req s0 (s', pA', pB)"
proof (cases pA)
  case Start
  then have s': "s' = s" and "(\<exists>r. pA' = Rejected r \<and> status r \<noteq> 200)
      \<or> (\<exists>c. pA' = Verified c \<and> ctx_ok L WA req c)"
    using step ingest_verify_Inl_status [of L WA s req] ctx_ok_verified [of L WA s req]
    by (auto simp: handleCORS_def split: if_splits sum.splits)
  then show ?thesis
    using inv Start unfolding race_inv_def by auto
next
  case (Verified c)
  then have ok: "ctx_ok L WA req c" using inv by (simp add: race_inv_def)
  show ?thesis
  proof (cases "storeNonce WA s (ctx_orgId c) (ctx_agentId c) (ctx_nonce c)")
    case (Throws m)
    then have "s' = s" "pA' = Rejected (internalError m)"
      using step Verified by simp_all
    then show ?thesis
      using inv Verified unfolding race_inv_def by auto
  next
    case (Returns s1)
    then have e: "s' = s1" "pA' = Stored c"
      using step Verified by simp_all
    note sn = storeNonce_Returns [OF Returns]
    have nb: "\<not> past_store pB"
    proof
      assume pb: "past_store pB"
      then obtain c' where c': "ctx_of pB = Some c'" using past_store_ctx by blast
      then have "ctx_ok L WB req c'" using inv by (simp add: race_inv_def)
      then have k: "ctx_orgId c' = ctx_orgId c \<and> ctx_agentId c' = ctx_agentId c
          \<and> ctx_nonce c' = ctx_nonce c"
        using ctx_ok_same_key [OF env ok] by simp
      have "\<exists>r \<in> set (api_nonces s).
          nonce_matches (ctx_orgId c') (ctx_agentId c') (ctx_nonce c') r"
        using inv pb c' unfolding race_inv_def by auto
      then show False using sn(2) k by simp
    qed
    have n: "\<exists>r \<in> set (api_nonces s1).
          nonce_matches (ctx_orgId c) (ctx_agentId c) (ctx_nonce c) r"
      using sn(1) by (simp add: nonce_matches_def)
    have h: "heartbeats s1 = heartbeats s" using sn(1) by simp
    show ?thesis
      using inv Verified e nb n h ok unfolding race_inv_def by auto
  qed
next
  case (Stored c)
  obtain s1 r where c: "ingest_commit L WA c s = (s1, r)" by (cases "ingest_commit L WA c s")
  then have e: "s' = s1" "pA' = Committed c r"
    using step Stored by simp_all
  note ef = ingest_commit_effect [OF c]
  show ?thesis
    using inv Stored e ef unfolding race_inv_def by auto
next
  case (Rejected r)
  then show ?thesis using inv step by auto
next
  case (Committed c r)
  then show ?thesis using inv step by auto
qed

lemma race_run:
  assumes "denv WB = denv WA"
    and "race_inv L WA WB req s0 cfg"
  shows "race_inv L WA WB req s0 (run2 L WA WB req req sched cfg)"
  using assms(2)
proof (induction sched arbitrary: cfg)
  case Nil
  then show ?case by simp
next
  case (Cons turn sched)
  obtain s pA pB where cfg: "cfg = (s, pA, pB)" by (cases cfg)
  show ?case
  proof (cases turn)
    case True
    obtain s' pA' where st: "ingest_step L WA req (s, pA) = (s', pA')"
      by (cases "ingest_step L WA req (s, pA)")
    have "race_inv L WA WB req s0 (s', pA', pB)"
      using race_step [OF assms(1) _ st] Cons.prems cfg by simp
    then show ?thesis using Cons.IH cfg True st by simp
  next
    case False
    obtain s' pB' where st: "ingest_step L WB req (s, pB) = (s', pB')"
      by (cases "ingest_step L WB req (s, pB)")
    have "race_inv L WB WA req s0 (s, pB, pA)"
      using race_inv_sym Cons.prems cfg by simp
    then have "race_inv L WB WA req s0 (s', pB', pA)"
      using race_step [OF assms(1) [symmetric] _ st] by simp
    then have "race_inv L WA WB req s0 (s', pA, pB')"
      by (rule race_inv_sym)
    then show ?thesis using Cons.IH cfg False st by simp
  qed
qed

lemma race_inv_start: "race_inv L WA WB req s (s, Start, Start)"
  by (simp add: race_inv_def)

text \<open>Run alone, the three steps are the handler.\<close>

lemma ingest_three_steps:
  "\<exists>p. ingest_step L W req (ingest_step L W req (ingest_step L W req (s, Start)))
          = (fst (ingest L W s req), p)
       \<and> answer p = Some (snd (ingest L W s req))"
  by (auto simp: ingest_def split: sum.splits outcome.splits prod.splits)

text \<open>
  Claim C3, as stated, fails: the replay check (\<open>isNonceUsed\<close>) is a read, and the nonce
  is written by a separate, later operation (\<open>storeNonce\<close>). When two copies of the
  sample request are verified one after the other before either has stored its nonce,
  both pass the replay check and the store still holds no nonce.
\<close>

theorem replay_check_is_a_read_counterexample:
  "run2 sample_lib (sample_world 0) (sample_world 0) sample_request sample_request
       [True, False] (sample_store, Start, Start)
     = (sample_store, Verified (sample_ctx ''B1''), Verified (sample_ctx ''B1''))"
  by code_simp

text \<open>
  Claim C3, amended. The replay check is a read followed by a separate insert under the
  unique key (org, agent, nonce). However two copies of one request are interleaved, at
  most one of them gets past \<open>storeNonce\<close> into the commit phase, at most one heartbeat
  row is added, and no request rejected on the way has been answered 200: the copy that
  loses the race for the insert fails with 500 (409 if its read came after the
  insert).
\<close>

theorem concurrent_replay_at_most_one:
  assumes "denv WB = denv WA"
    and "run2 L WA WB req req sched (s, Start, Start) = (s', pA, pB)"
  shows "\<not> (past_store pA \<and> past_store pB)
       \<and> length (heartbeats s') \<le> length (heartbeats s) + 1
       \<and> (\<forall>r. pA = Rejected r \<or> pB = Rejected r \<longrightarrow> status r \<noteq> 200)"
proof -
  have i: "race_inv L WA WB req s (s', pA, pB)"
    using race_run [OF assms(1) race_inv_start, of L req s sched] assms(2) by simp
  then have np: "\<not> (past_store pA \<and> past_store pB)"
    and h: "length (heartbeats s') \<le> length (heartbeats s) + committed pA + committed pB"
    and r: "\<forall>r. pA = Rejected r \<or> pB = Rejected r \<longrightarrow> status r \<noteq> 200"
    unfolding race_inv_def by auto
  have "committed pA + committed pB \<le> 1"
    using np by (cases pA; cases pB) simp_all
  then show ?thesis using np h r by simp
qed

theorem concurrent_replay_at_most_one_witness:
  "(case run2 sample_lib (sample_world 0) (sample_world 0) sample_request sample_request
          [True, False, True, True, False, False] (sample_store, Start, Start) of
      (s', pA, pB) \<Rightarrow>
        past_store pA \<and> \<not> past_store pB
        \<and> length (heartbeats s') = 1
        \<and> map_option status (answer pA) = Some 200
        \<and> map_option status (answer pB) = Some 500)"
proof -
  have e: "denv (sample_world 0) = denv (sample_world 0)" by simp
  have r: "run2 sample_lib (sample_world 0) (sample_world 0) sample_request sample_request
          [True, False, True, True, False, False] (sample_store, Start, Start)
        = (fst (run2 sample_lib (sample_world 0) (sample_world 0) sample_request sample_request
                 [True, False, True, True, False, False] (sample_store, Start, Start)),
           fst (snd (run2 sample_lib (sample_world 0) (sample_world 0) sample_request sample_request
                 [True, False, True, True, False, False] (sample_store, Start, Start))),
           snd (snd (run2 sample_lib (sample_world 0) (sample_world 0) sample_request sample_request
                 [True, False, True, True, False, False] (sample_store, Start, Start))))"
    by simp
  have v: "(case run2 sample_lib (sample_world 0) (sample_world 0) sample_request sample_request
          [True, False, True, True, False, False] (sample_store, Start, Start) of
      (s', pA, pB) \<Rightarrow>
        past_store pA
        \<and> length (heartbeats s') = 1
        \<and> map_option status (answer pA) = Some 200
        \<and> map_option status (answer pB) = Some 500)"
    by code_simp
  show ?thesis
    using concurrent_replay_at_most_one [OF e r] v
    by (simp add: split_beta)
qed

end
